theory Spec2Isabelle
  imports Complex_Main "HOL-Library.Word"
begin

section \<open>Python values and errors\<close>

text \<open>
  The unit under verification is the class \<open>LPU\<close> of \<open>neurokernel/LPU/LPU.py\<close>
  (Python 2, numpy, pycuda). Exceptions are values: a function that can raise returns
  \<open>py_error + 'a\<close>, with \<open>Inl\<close> the exception.
\<close>

datatype py_error =
  KeyError | IndexError | ValueError | TypeError | AttributeError | AssertionError |
  ZeroDivisionError

definition bind_err :: "'e + 'a \<Rightarrow> ('a \<Rightarrow> 'e + 'b) \<Rightarrow> 'e + 'b" where
  "bind_err m f = (case m of Inl e \<Rightarrow> Inl e | Inr x \<Rightarrow> f x)"

fun mapM_err :: "('a \<Rightarrow> 'e + 'b) \<Rightarrow> 'a list \<Rightarrow> 'e + 'b list" where
  "mapM_err f [] = Inr []"
| "mapM_err f (x # xs) =
     (case f x of
        Inl e \<Rightarrow> Inl e
      | Inr y \<Rightarrow> (case mapM_err f xs of Inl e \<Rightarrow> Inl e | Inr ys \<Rightarrow> Inr (y # ys)))"

text \<open>\<open>np.array(..., dtype=np.int32)\<close> on Python integers: the C cast of the numpy
  release the code was written for, which keeps the low 32 bits as a signed value. It
  is the identity on integers that fit.\<close>

definition int32 :: "int \<Rightarrow> int" where
  "int32 x = signed_take_bit 31 x"

text \<open>\<open>a[m]\<close> for a boolean array \<open>m\<close> of the length of \<open>a\<close>.\<close>

definition mask :: "'a list \<Rightarrow> bool list \<Rightarrow> 'a list" where
  "mask xs bs = map fst (filter snd (zip xs bs))"

text \<open>\<open>np.asarray(v)[order]\<close> for an integer index array \<open>order\<close>.\<close>

definition take_inds :: "'a list \<Rightarrow> nat list \<Rightarrow> py_error + 'a list" where
  "take_inds v ord =
     (if list_all (\<lambda>i. i < length v) ord then Inr (map (\<lambda>i. v ! i) ord) else Inl IndexError)"

text \<open>\<open>np.where(m)[0]\<close>: the positions at which a boolean array holds.\<close>

definition where_true :: "bool list \<Rightarrow> nat list" where
  "where_true bs = filter (\<lambda>i. bs ! i) [0..<length bs]"

text \<open>Python 2's \<open>round\<close> (halves go away from zero) followed by \<open>int\<close>. The
  arithmetic of the code is in binary floating point; the model computes over the
  reals.\<close>

definition py_round :: "real \<Rightarrow> int" where
  "py_round x = (if 0 \<le> x then \<lfloor>x + 1 / 2\<rfloor> else - \<lfloor>- x + 1 / 2\<rfloor>)"

section \<open>The unit's input: column-oriented model dictionaries\<close>

text \<open>
  \<open>n_dict\<close> maps a neuron model name to its columns: \<open>n['id']\<close>, \<open>n['spiking']\<close>,
  \<open>n['public']\<close>, \<open>n['extern']\<close>, \<open>n['selector']\<close> (the parameter columns of a model are
  handed to the model's class and not read by \<open>LPU\<close>; they are left out). \<open>LPU.__init__\<close> only ever walks \<open>n_dict.items()\<close>, whose order
  Python 2 does not specify, so the model takes that list, \<open>n_list\<close>, as its input.
\<close>

record neuron_cols =
  nc_id :: "int list"
  nc_spiking :: "bool list"
  nc_public :: "bool list"
  nc_extern :: "bool list"
  nc_selector :: "string list"

text \<open>
  A \<open>post\<close> entry of a synapse names a neuron or another synapse. The code tells them
  apart by \<open>'synapse' in str(nid)\<close> and reads a synapse's id as \<open>int(nid[8:])\<close>;
  \<open>SynapsePost k\<close> is a name for which that test holds and that integer is \<open>k\<close>,
  \<open>NeuronPost k\<close> one for which it fails and \<open>int(nid)\<close> is \<open>k\<close>.
\<close>

datatype post_ref = NeuronPost int | SynapsePost int

text \<open>The columns of a synapse model. \<open>'reverse'\<close> and \<open>'delay'\<close> may be missing from a
  model (\<open>None\<close>); parameter columns are left out as for neurons.\<close>

record synapse_cols =
  sc_id :: "int list"
  sc_class :: "int list"
  sc_conductance :: "bool list"
  sc_reverse :: "real list option"
  sc_delay :: "real list option"
  sc_pre :: "int list"
  sc_post :: "post_ref list"

text \<open>A synapse model after the loop of lines 527-573: \<open>pre\<close> holds packed positions,
  \<open>post\<close> resolved addresses, and every column has been permuted by \<open>order\<close>.\<close>

record synapse_compiled =
  cs_id :: "int list"
  cs_class :: "int list"
  cs_conductance :: "bool list"
  cs_reverse :: "real list option"
  cs_delay :: "real list option"
  cs_pre :: "nat list"
  cs_post :: "int list"

definition PORT_IN_GPOT :: string where
  "PORT_IN_GPOT = ''port_in_gpot''"

definition PORT_IN_SPK :: string where
  "PORT_IN_SPK = ''port_in_spk''"

section \<open>The index space (\<open>LPU.__init__\<close>, lines 384-511)\<close>

definition n_model_is_spk :: "(string \<times> neuron_cols) list \<Rightarrow> py_error + bool list" where
  "n_model_is_spk n_list =
     mapM_err (\<lambda>(t, n). case nc_spiking n of [] \<Rightarrow> Inl IndexError | b # _ \<Rightarrow> Inr b) n_list"

definition n_model_num :: "(string \<times> neuron_cols) list \<Rightarrow> nat list" where
  "n_model_num n_list = map (\<lambda>(t, n). length (nc_id n)) n_list"

definition n_id :: "(string \<times> neuron_cols) list \<Rightarrow> int list" where
  "n_id n_list = map int32 (concat (map (\<lambda>(t, n). nc_id n) n_list))"

definition n_is_spk :: "(string \<times> neuron_cols) list \<Rightarrow> bool list" where
  "n_is_spk n_list = concat (map (\<lambda>(t, n). nc_spiking n) n_list)"

definition n_is_pub :: "(string \<times> neuron_cols) list \<Rightarrow> bool list" where
  "n_is_pub n_list = concat (map (\<lambda>(t, n). nc_public n) n_list)"

definition n_has_in :: "(string \<times> neuron_cols) list \<Rightarrow> bool list" where
  "n_has_in n_list = concat (map (\<lambda>(t, n). nc_extern n) n_list)"

text \<open>\<open>num_gpot_neurons = np.where(n_model_is_spk, 0, n_model_num)\<close> and its spiking
  twin: one count per model, by the flag of the model's first neuron.\<close>

definition num_gpot_neurons_per_model :: "bool list \<Rightarrow> nat list \<Rightarrow> nat list" where
  "num_gpot_neurons_per_model is_spk num = map (\<lambda>(b, k). if b then 0 else k) (zip is_spk num)"

definition num_spike_neurons_per_model :: "bool list \<Rightarrow> nat list \<Rightarrow> nat list" where
  "num_spike_neurons_per_model is_spk num = map (\<lambda>(b, k). if b then k else 0) (zip is_spk num)"

definition gpot_idx :: "(string \<times> neuron_cols) list \<Rightarrow> int list" where
  "gpot_idx n_list = mask (n_id n_list) (map Not (n_is_spk n_list))"

definition spike_idx :: "(string \<times> neuron_cols) list \<Rightarrow> int list" where
  "spike_idx n_list = mask (n_id n_list) (n_is_spk n_list)"

text \<open>\<open>idx\<close> is the packed layout: the original id held by each packed position.\<close>

definition idx :: "(string \<times> neuron_cols) list \<Rightarrow> int list" where
  "idx n_list = gpot_idx n_list @ spike_idx n_list"

text \<open>\<open>d = {}\<close>, then \<open>for i, id in enumerate(xs): d[id] = i\<close>.\<close>

definition dict_put :: "nat \<times> int \<Rightarrow> (int \<rightharpoonup> nat) \<Rightarrow> (int \<rightharpoonup> nat)" where
  "dict_put p d = d(snd p \<mapsto> fst p)"

definition enumerate_dict :: "int list \<Rightarrow> (int \<rightharpoonup> nat)" where
  "enumerate_dict xs = fold dict_put (enumerate 0 xs) Map.empty"

definition order_dict :: "(string \<times> neuron_cols) list \<Rightarrow> (int \<rightharpoonup> nat)" where
  "order_dict n_list = enumerate_dict (idx n_list)"

definition gpot_order_dict :: "(string \<times> neuron_cols) list \<Rightarrow> (int \<rightharpoonup> nat)" where
  "gpot_order_dict n_list = enumerate_dict (gpot_idx n_list)"

definition spike_order_dict :: "(string \<times> neuron_cols) list \<Rightarrow> (int \<rightharpoonup> nat)" where
  "spike_order_dict n_list = enumerate_dict (spike_idx n_list)"

text \<open>
  The methods \<open>order\<close>, \<open>gpot_order\<close> and \<open>spike_order\<close> share one body, over their own
  dictionary. Called on an integer (\<open>order_int\<close>), a missing key raises \<open>KeyError\<close>
  inside the \<open>try\<close>, and the handler then iterates over the integer: \<open>TypeError\<close>.
  Called on an array (\<open>order_array\<close>), the \<open>try\<close> always fails (an array is not
  hashable) and the handler looks every element up; a missing key raises \<open>KeyError\<close>.
\<close>

definition order_int :: "(int \<rightharpoonup> nat) \<Rightarrow> int \<Rightarrow> py_error + nat" where
  "order_int d k = (case d k of None \<Rightarrow> Inl TypeError | Some p \<Rightarrow> Inr p)"

definition order_array :: "(int \<rightharpoonup> nat) \<Rightarrow> int list \<Rightarrow> py_error + nat list" where
  "order_array d ks = mapM_err (\<lambda>k. case d k of None \<Rightarrow> Inl KeyError | Some p \<Rightarrow> Inr p) ks"

text \<open>\<open>in_id = n_id[n_has_in]; in_id.sort()\<close>, then
  \<open>input_neuron_list = self.order(in_id)\<close>.\<close>

definition in_id :: "(string \<times> neuron_cols) list \<Rightarrow> int list" where
  "in_id n_list = sort (mask (n_id n_list) (n_has_in n_list))"

definition input_neuron_list_of :: "(string \<times> neuron_cols) list \<Rightarrow> py_error + nat list" where
  "input_neuron_list_of n_list = order_array (order_dict n_list) (in_id n_list)"

text \<open>The ids of the public neurons of each kind (lines 428-433), in \<open>n_list\<close> order;
  \<open>zip\<close> stops at the shortest column, as Python's does.\<close>

definition out_ports_ids :: "bool \<Rightarrow> (string \<times> neuron_cols) list \<Rightarrow> int list" where
  "out_ports_ids want_spk n_list =
     map int32 (concat (map (\<lambda>(t, n).
        map fst (filter (\<lambda>(i, pub, spk). pub \<and> spk = want_spk)
                   (zip (nc_id n) (zip (nc_public n) (nc_spiking n))))) n_list))"

text \<open>The position of an input-port model in \<open>n_list\<close>
  (\<open>zip(*self.n_list)[0].index(PORT_IN_GPOT)\<close>), \<open>None\<close> when the unit has none.\<close>

fun index_of :: "'a \<Rightarrow> 'a list \<Rightarrow> nat option" where
  "index_of a [] = None"
| "index_of a (x # xs) = (if x = a then Some 0 else map_option Suc (index_of a xs))"

definition ports_in_mem_ind :: "string \<Rightarrow> (string \<times> neuron_cols) list \<Rightarrow> nat option" where
  "ports_in_mem_ind port n_list = index_of port (map fst n_list)"

definition num_in_ports :: "string \<Rightarrow> (string \<times> neuron_cols) list \<Rightarrow> nat" where
  "num_in_ports port n_list =
     (case map_of n_list port of None \<Rightarrow> 0 | Some n \<Rightarrow> length (nc_id n))"

text \<open>\<open>self.nid_max = np.max(n_id) + 1\<close>; \<open>np.max\<close> of an empty array raises
  \<open>ValueError\<close>. The sum is taken in 64 bits and does not wrap.\<close>

definition nid_max :: "(string \<times> neuron_cols) list \<Rightarrow> py_error + int" where
  "nid_max n_list =
     (if n_id n_list = [] then Inl ValueError else Inr (Max (set (n_id n_list)) + 1))"

section \<open>Compiling the synapse models (\<open>LPU.__init__\<close>, lines 512-575)\<close>

text \<open>
  \<open>np.argsort(s['post'])\<close> is called without a \<open>kind\<close>: numpy's default sort, which
  numpy documents as not stable. The routine is not part of the repository, so the
  model takes it as a parameter \<open>argsort\<close>; \<open>sorts_by\<close> is what numpy promises of the
  index array it returns for \<open>keys\<close>: a permutation of the positions along which
  \<open>keys\<close> is ascending.
\<close>

definition sorts_by :: "nat list \<Rightarrow> int list \<Rightarrow> bool" where
  "sorts_by ord keys \<longleftrightarrow>
     length ord = length keys \<and> distinct ord \<and> list_all (\<lambda>i. i < length keys) ord \<and>
     sorted (map (\<lambda>i. keys ! i) ord)"

text \<open>A stable index sort (insertion sort by key, as \<open>kind='mergesort'\<close> would give),
  and one that is not: it puts equal keys in reverse order.\<close>

definition argsort_stable :: "int list \<Rightarrow> nat list" where
  "argsort_stable keys = sort_key (\<lambda>i. keys ! i) [0..<length keys]"

definition argsort_reversing :: "int list \<Rightarrow> nat list" where
  "argsort_reversing keys = sort_key (\<lambda>i. keys ! i) (rev [0..<length keys])"

fun neuron_posts :: "post_ref list \<Rightarrow> int list" where
  "neuron_posts [] = []"
| "neuron_posts (NeuronPost k # ps) = k # neuron_posts ps"
| "neuron_posts (SynapsePost k # ps) = neuron_posts ps"

fun synapse_posts :: "post_ref list \<Rightarrow> int list" where
  "synapse_posts [] = []"
| "synapse_posts (NeuronPost k # ps) = synapse_posts ps"
| "synapse_posts (SynapsePost k # ps) = k # synapse_posts ps"

text \<open>Lines 536-537. A neuron target resolves to its packed position, a synapse
  target to its id plus \<open>nid_max\<close>.\<close>

definition s_neu_post :: "(int \<rightharpoonup> nat) \<Rightarrow> post_ref list \<Rightarrow> py_error + int list" where
  "s_neu_post od posts =
     bind_err (mapM_err (order_int od) (neuron_posts posts)) (\<lambda>ps. Inr (map int ps))"

definition s_syn_post :: "int \<Rightarrow> post_ref list \<Rightarrow> int list" where
  "s_syn_post nmax posts = map (\<lambda>k. k + nmax) (synapse_posts posts)"

text \<open>The locals the loop over \<open>s_list\<close> carries from one model to the next.\<close>

record synapse_locals =
  l_count :: nat
  l_cond_pre :: "nat list"
  l_cond_post :: "int list"
  l_reverse :: "real list"
  l_I_pre :: "nat list"
  l_I_post :: "int list"
  l_gpot_delay_steps :: real
  l_spike_delay_steps :: real

definition synapse_locals_init :: synapse_locals where
  "synapse_locals_init =
     \<lparr> l_count = 0, l_cond_pre = [], l_cond_post = [], l_reverse = [], l_I_pre = [],
       l_I_post = [], l_gpot_delay_steps = 0, l_spike_delay_steps = 0 \<rparr>"

text \<open>Lines 541-542: \<open>for k, v in s.items(): s[k] = np.asarray(v)[order]\<close>, over the
  columns with \<open>pre\<close> and \<open>post\<close> already resolved.\<close>

definition permute_columns ::
  "nat list \<Rightarrow> synapse_cols \<Rightarrow> nat list \<Rightarrow> int list \<Rightarrow> py_error + synapse_compiled" where
  "permute_columns ord s pre post =
     bind_err (take_inds (sc_id s) ord) (\<lambda>c_id.
     bind_err (take_inds (sc_class s) ord) (\<lambda>c_class.
     bind_err (take_inds (sc_conductance s) ord) (\<lambda>c_cond.
     bind_err (case sc_reverse s of None \<Rightarrow> Inr None
               | Some r \<Rightarrow> bind_err (take_inds r ord) (\<lambda>r'. Inr (Some r'))) (\<lambda>c_rev.
     bind_err (case sc_delay s of None \<Rightarrow> Inr None
               | Some d \<Rightarrow> bind_err (take_inds d ord) (\<lambda>d'. Inr (Some d'))) (\<lambda>c_delay.
     bind_err (take_inds pre ord) (\<lambda>c_pre.
     bind_err (take_inds post ord) (\<lambda>c_post.
       Inr \<lparr> cs_id = c_id, cs_class = c_class, cs_conductance = c_cond,
             cs_reverse = c_rev, cs_delay = c_delay, cs_pre = c_pre,
             cs_post = c_post \<rparr>)))))))"

text \<open>Lines 528-542: resolve \<open>pre\<close> and \<open>post\<close>, then permute every column by
  \<open>order = np.argsort(s['post'])\<close>.\<close>

definition resolve_and_sort ::
  "(int list \<Rightarrow> nat list) \<Rightarrow> (string \<times> neuron_cols) list \<Rightarrow> int \<Rightarrow> synapse_cols \<Rightarrow>
     py_error + synapse_compiled" where
  "resolve_and_sort argsort n_list nmax s =
     (case sc_class s of
        [] \<Rightarrow> Inl IndexError
      | cls # _ \<Rightarrow>
          bind_err (mapM_err (order_int (if cls \<le> 1 then spike_order_dict n_list
                                         else gpot_order_dict n_list)) (sc_pre s)) (\<lambda>pre.
          bind_err (s_neu_post (order_dict n_list) (sc_post s)) (\<lambda>neu.
            let post = neu @ s_syn_post nmax (sc_post s) in
            permute_columns (argsort post) s pre post)))"

text \<open>Lines 550-561: the conductance-based synapses of the model.\<close>

definition conductance_part :: "synapse_locals \<Rightarrow> synapse_compiled \<Rightarrow> py_error + synapse_locals" where
  "conductance_part a s =
     (let idx = where_true (cs_conductance s) in
      if length idx > 0 then
        bind_err (take_inds (cs_post s) idx) (\<lambda>posts.
        bind_err (case cs_reverse s of None \<Rightarrow> Inl KeyError | Some r \<Rightarrow> take_inds r idx) (\<lambda>revs.
        bind_err (case cs_delay s of
                    None \<Rightarrow> Inr (l_gpot_delay_steps a)
                  | Some d \<Rightarrow> bind_err (take_inds d idx) (\<lambda>ds.
                      let max_del = Max (set ds) in
                      Inr (if max_del > l_gpot_delay_steps a then max_del
                           else l_gpot_delay_steps a))) (\<lambda>g.
          Inr (a\<lparr> l_cond_post := l_cond_post a @ posts,
                   l_reverse := l_reverse a @ revs,
                   l_cond_pre := l_cond_pre a @ [l_count a..<l_count a + length idx],
                   l_count := l_count a + length idx,
                   l_gpot_delay_steps := g \<rparr>))))
      else Inr a)"

text \<open>Lines 563-573: the current-based synapses of the model. \<open>count\<close> advances by the
  size of the whole model here (line 567), as the code has it.\<close>

definition current_part :: "synapse_locals \<Rightarrow> synapse_compiled \<Rightarrow> py_error + synapse_locals" where
  "current_part a s =
     (let idx = where_true (map Not (cs_conductance s)) in
      if length idx > 0 then
        bind_err (take_inds (cs_post s) idx) (\<lambda>posts.
        bind_err (case cs_delay s of
                    None \<Rightarrow> Inr (l_spike_delay_steps a)
                  | Some d \<Rightarrow> bind_err (take_inds d idx) (\<lambda>ds.
                      let max_del = Max (set ds) in
                      Inr (if max_del > l_spike_delay_steps a then max_del
                           else l_spike_delay_steps a))) (\<lambda>g.
          Inr (a\<lparr> l_I_post := l_I_post a @ posts,
                   l_I_pre := l_I_pre a @ [l_count a..<l_count a + length posts],
                   l_count := l_count a + length (cs_post s),
                   l_spike_delay_steps := g \<rparr>)))
      else Inr a)"

text \<open>One turn of the loop, and the loop.\<close>

definition compile_synapse_model ::
  "(int list \<Rightarrow> nat list) \<Rightarrow> (string \<times> neuron_cols) list \<Rightarrow> int \<Rightarrow> synapse_locals \<Rightarrow>
     synapse_cols \<Rightarrow> py_error + (synapse_locals \<times> synapse_compiled)" where
  "compile_synapse_model argsort n_list nmax a s =
     bind_err (resolve_and_sort argsort n_list nmax s) (\<lambda>s'.
     bind_err (conductance_part a s') (\<lambda>a1.
     bind_err (current_part a1 s') (\<lambda>a2. Inr (a2, s'))))"

fun compile_synapses ::
  "(int list \<Rightarrow> nat list) \<Rightarrow> (string \<times> neuron_cols) list \<Rightarrow> int \<Rightarrow> synapse_locals \<Rightarrow>
     (string \<times> synapse_cols) list \<Rightarrow>
     py_error + (synapse_locals \<times> (string \<times> synapse_compiled) list)" where
  "compile_synapses argsort n_list nmax a [] = Inr (a, [])"
| "compile_synapses argsort n_list nmax a ((t, s) # rest) =
     bind_err (compile_synapse_model argsort n_list nmax a s) (\<lambda>(a1, s').
     bind_err (compile_synapses argsort n_list nmax a1 rest) (\<lambda>(a2, rest').
       Inr (a2, (t, s') # rest')))"

text \<open>Lines 671-672: \<open>int(round(steps * 1e-3 / self.dt)) + 1\<close>.\<close>

definition delay_steps_of :: "real \<Rightarrow> real \<Rightarrow> py_error + int" where
  "delay_steps_of dt ms =
     (if dt = 0 then Inl ZeroDivisionError else Inr (py_round (ms * (1 / 1000) / dt) + 1))"

section \<open>The constructed unit\<close>

text \<open>
  The attributes \<open>LPU.__init__\<close> leaves on \<open>self\<close> that the rest of the class reads. The
  two \<open>*_delay_steps\<close> attributes, \<open>dt\<close> and \<open>output\<close> carry the prefix \<open>lpu_\<close> (the ring
  buffers have attributes of the same name). The port index arrays \<open>sel_*_ids\<close> come from the port
  mapper of the base class \<open>Module\<close>, and the lists of model classes from the
  \<open>neurons\<close> and \<open>synapses\<close> packages; neither is part of the repository's files, so both
  are inputs of the model (\<open>port_inds\<close>, \<open>registry\<close>). Selector strings and the fan-in
  tables of lines 576-669 are left out: no method modelled here reads them.
\<close>

record port_inds =
  p_sel_in_gpot_ids :: "nat list"
  p_sel_out_gpot_ids :: "nat list"
  p_sel_in_spk_ids :: "nat list"
  p_sel_out_spk_ids :: "nat list"

text \<open>\<open>_neuron_names\<close> and \<open>_synapse_names\<close> are the class names, a class is its position
  in the list. \<open>update_I_override\<close> is a class attribute of a neuron class,
  \<open>has_update_I\<close> tells whether a synapse class defines \<open>update_I\<close>.\<close>

record registry =
  neuron_names :: "string list"
  synapse_names :: "string list"
  update_I_override :: "nat \<Rightarrow> bool"
  has_update_I :: "nat \<Rightarrow> bool"

record lpu =
  lpu_dt :: real
  debug :: bool
  output_file :: "string option"
  lpu_output :: bool
  input_file :: "string option"
  input_eof :: bool
  one_time_import :: nat
  reg :: registry
  n_list :: "(string \<times> neuron_cols) list"
  s_list :: "(string \<times> synapse_compiled) list"
  ports_in_gpot_mem_ind :: "nat option"
  ports_in_spk_mem_ind :: "nat option"
  out_ports_ids_gpot :: "nat list"
  out_ports_ids_spk :: "nat list"
  total_num_gpot_neurons :: nat
  total_num_spike_neurons :: nat
  gpot_order_l :: "nat list"
  spike_order_l :: "nat list"
  spike_shift :: nat
  input_neuron_list :: "nat list"
  num_public_gpot :: nat
  num_public_spike :: nat
  num_input :: nat
  total_synapses :: nat
  idx_start_gpot :: "nat list"
  idx_start_spike :: "nat list"
  idx_start_synapse :: "nat list"
  lpu_gpot_delay_steps :: int
  lpu_spike_delay_steps :: int
  sel_in_gpot_ids :: "nat list"
  sel_out_gpot_ids :: "nat list"
  sel_in_spk_ids :: "nat list"
  sel_out_spk_ids :: "nat list"

text \<open>\<open>np.concatenate(([0], np.cumsum(xs)))\<close>.\<close>

fun cumsum_from :: "nat \<Rightarrow> nat list \<Rightarrow> nat list" where
  "cumsum_from a [] = []"
| "cumsum_from a (x # xs) = (a + x) # cumsum_from (a + x) xs"

definition idx_start :: "nat list \<Rightarrow> nat list" where
  "idx_start xs = 0 # cumsum_from 0 xs"

text \<open>
  \<open>LPU.__init__\<close>, in the order of the source. The truthiness tests \<open>if output_file\<close>
  and \<open>if input_file\<close> hold for a non-empty string; the model takes a given file name to
  be non-empty.
\<close>

definition LPU_init ::
  "(int list \<Rightarrow> nat list) \<Rightarrow> registry \<Rightarrow> port_inds \<Rightarrow> real \<Rightarrow> (string \<times> neuron_cols) list \<Rightarrow>
     (string \<times> synapse_cols) list \<Rightarrow> string option \<Rightarrow> string option \<Rightarrow> bool \<Rightarrow> py_error + lpu" where
  "LPU_init argsort rg ports dt nl sl in_file out_file dbg =
     bind_err (n_model_is_spk nl) (\<lambda>model_is_spk.
     let num_gpot = num_gpot_neurons_per_model model_is_spk (n_model_num nl);
         num_spike = num_spike_neurons_per_model model_is_spk (n_model_num nl)
     in
     bind_err (input_neuron_list_of nl) (\<lambda>in_list.
     bind_err (order_array (gpot_order_dict nl) (out_ports_ids False nl)) (\<lambda>out_gpot.
     bind_err (order_array (spike_order_dict nl) (out_ports_ids True nl)) (\<lambda>out_spk.
     bind_err (nid_max nl) (\<lambda>nmax.
     bind_err (compile_synapses argsort nl nmax synapse_locals_init sl) (\<lambda>(a, sl').
     bind_err (delay_steps_of dt (l_gpot_delay_steps a)) (\<lambda>gsteps.
     bind_err (delay_steps_of dt (l_spike_delay_steps a)) (\<lambda>ssteps.
       Inr \<lparr> lpu_dt = dt,
             debug = dbg,
             output_file = out_file,
             lpu_output = (out_file \<noteq> None),
             input_file = in_file,
             input_eof = (in_file = None),
             one_time_import = 10,
             reg = rg,
             n_list = nl,
             s_list = sl',
             ports_in_gpot_mem_ind = ports_in_mem_ind PORT_IN_GPOT nl,
             ports_in_spk_mem_ind = ports_in_mem_ind PORT_IN_SPK nl,
             out_ports_ids_gpot = out_gpot,
             out_ports_ids_spk = out_spk,
             total_num_gpot_neurons = sum_list num_gpot,
             total_num_spike_neurons = sum_list num_spike,
             gpot_order_l = argsort (gpot_idx nl),
             spike_order_l = argsort (spike_idx nl),
             spike_shift = sum_list num_gpot,
             input_neuron_list = in_list,
             num_public_gpot = length (out_ports_ids False nl),
             num_public_spike = length (out_ports_ids True nl),
             num_input = length in_list,
             total_synapses = sum_list (map (\<lambda>(t, s). length (sc_id s)) sl),
             idx_start_gpot = idx_start num_gpot,
             idx_start_spike = idx_start num_spike,
             idx_start_synapse = idx_start (map (\<lambda>(t, s). length (sc_id s)) sl),
             lpu_gpot_delay_steps = gsteps,
             lpu_spike_delay_steps = ssteps,
             sel_in_gpot_ids = p_sel_in_gpot_ids ports,
             sel_out_gpot_ids = p_sel_out_gpot_ids ports,
             sel_in_spk_ids = p_sel_in_spk_ids ports,
             sel_out_spk_ids = p_sel_out_spk_ids ports \<rparr>))))))))"

section \<open>Delay lines: \<open>CircularArray\<close>\<close>

text \<open>
  \<open>CircularArray\<close> (LPU.py, lines 1192-1262) keeps one ring of past states per neuron
  kind. The attributes of a kind (\<open>*_delay_steps\<close>, \<open>*_buffer\<close>, \<open>*_current\<close>) are
  only assigned when the unit has neurons of that kind; the record holds \<open>0\<close> and \<open>[]\<close>
  in their place otherwise, and no method reads them in that case (every access is
  guarded by \<open>num_*_neurons > 0\<close>). Buffer rows are lists of values; the values are only
  ever copied, so they are carried as \<open>real\<close>.
\<close>

record circular_array =
  num_gpot_neurons :: nat
  gpot_delay_steps :: int
  gpot_buffer :: "real list list"
  gpot_current :: int
  num_spike_neurons :: nat
  spike_delay_steps :: int
  spike_buffer :: "real list list"
  spike_current :: int

text \<open>\<open>CircularArray.__init__\<close>: every row of the graded buffer is a copy of \<open>rest\<close>
  (the first \<open>num_gpot_neurons\<close> values of it), the spike buffer is zero.\<close>

definition CircularArray_init ::
  "nat \<Rightarrow> int \<Rightarrow> real list \<Rightarrow> nat \<Rightarrow> int \<Rightarrow> circular_array" where
  "CircularArray_init n_gpot gpot_steps rest n_spike spike_steps =
     \<lparr> num_gpot_neurons = n_gpot,
       gpot_delay_steps = (if n_gpot > 0 then gpot_steps else 0),
       gpot_buffer = (if n_gpot > 0 then replicate (nat gpot_steps) (take n_gpot rest) else []),
       gpot_current = 0,
       num_spike_neurons = n_spike,
       spike_delay_steps = (if n_spike > 0 then spike_steps else 0),
       spike_buffer = (if n_spike > 0 then replicate (nat spike_steps) (replicate n_spike 0) else []),
       spike_current = 0 \<rparr>"

text \<open>\<open>CircularArray.step\<close>: each cursor is incremented and reset to \<open>0\<close> once it
  reaches the depth of its ring.\<close>

definition step_gpot :: "circular_array \<Rightarrow> circular_array" where
  "step_gpot b =
     (if num_gpot_neurons b > 0
      then (let c = gpot_current b + 1
            in b\<lparr>gpot_current := (if c \<ge> gpot_delay_steps b then 0 else c)\<rparr>)
      else b)"

definition step_spike :: "circular_array \<Rightarrow> circular_array" where
  "step_spike b =
     (if num_spike_neurons b > 0
      then (let c = spike_current b + 1
            in b\<lparr>spike_current := (if c \<ge> spike_delay_steps b then 0 else c)\<rparr>)
      else b)"

definition step :: "circular_array \<Rightarrow> circular_array" where
  "step b = step_spike (step_gpot b)"

section \<open>Device arrays and the port gateway\<close>

text \<open>
  A device array is its element type and its elements. The elements are only ever
  copied by the code modelled here, so one carrier (\<open>real\<close>) serves both element types.
  A kernel that is handed an index outside an array has no defined behaviour; the model
  reads \<open>0\<close> there and drops such a write, and no claim below is about that case.
\<close>

datatype dtype = Float64 | Int32

record garray =
  ga_dtype :: dtype
  ga_data :: "real list"

definition zeros :: "nat \<Rightarrow> dtype \<Rightarrow> garray" where
  "zeros n t = \<lparr> ga_dtype = t, ga_data = replicate n 0 \<rparr>"

definition read_at :: "'a::zero list \<Rightarrow> nat \<Rightarrow> 'a" where
  "read_at xs k = (if k < length xs then xs ! k else 0)"

text \<open>The element-wise kernel of \<open>set_inds\<close>: \<open>dest[i + dest_shift] = src[inds[i]]\<close> for
  \<open>i\<close> in \<open>range(len(inds))\<close>.\<close>

definition set_inds_kernel :: "real list \<Rightarrow> real list \<Rightarrow> nat list \<Rightarrow> nat \<Rightarrow> real list" where
  "set_inds_kernel src dest inds shift =
     fold (\<lambda>i d. d[i + shift := read_at src (inds ! i)]) [0..<length inds] dest"

text \<open>\<open>LPU.set_inds\<close> (lines 887-901). \<open>dest_shift\<close> is an integer by its type here, so
  the first assertion holds; the second compares the element types before the kernel is
  built or called. The kernel cache has no effect on the result and is left out.\<close>

definition set_inds :: "garray \<Rightarrow> garray \<Rightarrow> nat list \<Rightarrow> nat \<Rightarrow> py_error + garray" where
  "set_inds src dest inds dest_shift =
     (if ga_dtype src \<noteq> ga_dtype dest then Inl AssertionError
      else Inr (dest\<lparr> ga_data := set_inds_kernel (ga_data src) (ga_data dest) inds dest_shift \<rparr>))"

text \<open>The kernel \<open>extract_projection\<close> (lines 1029-1047):
  \<open>projection_V[projection_index[i]] = all_V[all_index[i]]\<close> for \<open>i < N\<close>. The kernel is
  compiled for the element type of \<open>all_V\<close> alone and receives raw device pointers.\<close>

definition extract_projection ::
  "real list \<Rightarrow> real list \<Rightarrow> nat list \<Rightarrow> nat list \<Rightarrow> nat \<Rightarrow> real list" where
  "extract_projection all_V projection_V all_index projection_index N =
     fold (\<lambda>i p. p[read_at projection_index i := read_at all_V (read_at all_index i)])
       [0..<N] projection_V"

section \<open>The running unit\<close>

text \<open>
  A model object is the class it was built from and the position \<open>i\<close> of its model in
  \<open>n_list\<close> or \<open>s_list\<close> (which fixes the slice of the state arrays it works on). What
  the classes compute is outside the repository's files: their constructors and their
  methods \<open>update_I\<close>, \<open>eval\<close> and \<open>update_state\<close> are parameters of the model
  (\<open>model_sem\<close>), functions on the device memory they can reach: the three state
  arrays and the memory \<open>'m\<close> the objects allocate for themselves.
\<close>

datatype neuron_obj = NeuronObj nat nat

datatype synapse_obj = SynapseObj nat nat

text \<open>The calls a step makes, recorded in the order they are made. The log is not an
  attribute of the class: it is how the model counts invocations. A neuron or synapse
  event carries the position of the object in \<open>self.neurons\<close> or \<open>self.synapses\<close>.\<close>

datatype event =
  NeuronUpdateI nat | NeuronEval nat | UpdateBuffer | SynapseUpdateI nat |
  SynapseUpdateState nat | BufferStep | KernelLaunch string | WindowRefill nat |
  LogInfo string

record 'm device =
  d_synapse_state :: garray
  d_V :: "garray option"
  d_spike_state :: "garray option"
  d_mem :: 'm

record 'm model_sem =
  neuron_init :: "nat \<Rightarrow> nat \<Rightarrow> 'm device \<Rightarrow> 'm device"
  neuron_update_I :: "nat \<Rightarrow> nat \<Rightarrow> 'm device \<Rightarrow> 'm device"
  neuron_eval :: "nat \<Rightarrow> nat \<Rightarrow> 'm device \<Rightarrow> 'm device"
  synapse_init :: "nat \<Rightarrow> nat \<Rightarrow> 'm device \<Rightarrow> 'm device"
  synapse_update_I :: "nat \<Rightarrow> nat \<Rightarrow> 'm device \<Rightarrow> 'm device"
  synapse_update_state :: "nat \<Rightarrow> nat \<Rightarrow> circular_array \<Rightarrow> 'm device \<Rightarrow> 'm device"

text \<open>The external-current file: a two-dimensional array \<open>frame \<times> channel\<close>.\<close>

record h5_array =
  h5_channels :: nat
  h5_frames :: "real list list"

text \<open>
  The attributes \<open>pre_run\<close> adds to the unit. \<open>V\<close> is \<open>None\<close> when the unit has no
  graded neuron; the attribute \<open>spike_state\<close> is not set when it has no spiking neuron,
  which is \<open>None\<close> here. \<open>pm_gpot_data\<close> and \<open>pm_spike_data\<close> are the data arrays of the
  two port mappers of the base class. The four files are the rows appended so far.
\<close>

record 'm lpu_state = lpu +
  first_step :: bool
  synapse_state :: garray
  V :: "garray option"
  spike_state :: "garray option"
  model_mem :: 'm
  neurons :: "neuron_obj option list"
  synapses :: "synapse_obj option list"
  buffer :: circular_array
  input_h5file :: h5_array
  file_pointer :: nat
  I_ext :: "real list list"
  frame_count :: nat
  frames_in_buffer :: nat
  pm_gpot_data :: garray
  pm_spike_data :: garray
  inds_gpot :: "nat list"
  inds_spike :: "nat list"
  output_gpot_file :: "real list list"
  output_spike_file :: "real list list"
  gpot_buffer_file :: "real list list list"
  synapse_state_file :: "real list list"
  trace :: "event list"

definition get_device :: "'m lpu_state \<Rightarrow> 'm device" where
  "get_device s =
     \<lparr> d_synapse_state = synapse_state s, d_V = V s, d_spike_state = spike_state s,
       d_mem = model_mem s \<rparr>"

definition put_device :: "'m device \<Rightarrow> 'm lpu_state \<Rightarrow> 'm lpu_state" where
  "put_device d s =
     s\<lparr> synapse_state := d_synapse_state d, V := d_V d, spike_state := d_spike_state d,
        model_mem := d_mem d \<rparr>"

definition on_device :: "('m device \<Rightarrow> 'm device) \<Rightarrow> 'm lpu_state \<Rightarrow> 'm lpu_state" where
  "on_device f s = put_device (f (get_device s)) s"

definition log_event :: "event \<Rightarrow> 'm lpu_state \<Rightarrow> 'm lpu_state" where
  "log_event e s = s\<lparr> trace := trace s @ [e] \<rparr>"

section \<open>\<open>pre_run\<close>: device arrays and model objects\<close>

text \<open>Python's \<open>int\<close> on a string, for decimal literals: surrounding white space, an
  optional sign, at least one digit.\<close>

definition is_space :: "char \<Rightarrow> bool" where
  "is_space c \<longleftrightarrow> (of_char c :: nat) \<in> {9, 10, 11, 12, 13, 32}"

definition digit_of :: "char \<Rightarrow> nat option" where
  "digit_of c =
     (let n = (of_char c :: nat) in if 48 \<le> n \<and> n \<le> 57 then Some (n - 48) else None)"

fun digits_acc :: "nat \<Rightarrow> string \<Rightarrow> nat option" where
  "digits_acc a [] = Some a"
| "digits_acc a (c # cs) =
     (case digit_of c of None \<Rightarrow> None | Some d \<Rightarrow> digits_acc (10 * a + d) cs)"

definition py_int :: "string \<Rightarrow> int option" where
  "py_int str =
     (case rev (dropWhile is_space (rev (dropWhile is_space str))) of
        [] \<Rightarrow> None
      | c # cs \<Rightarrow>
          if c = CHR ''-'' then (if cs = [] then None
                                 else map_option (\<lambda>n. - int n) (digits_acc 0 cs))
          else if c = CHR ''+'' then (if cs = [] then None
                                      else map_option int (digits_acc 0 cs))
          else map_option int (digits_acc 0 (c # cs)))"

text \<open>\<open>classes[ind]\<close> for a Python integer \<open>ind\<close>: negative indices count from the end.\<close>

definition py_index :: "nat \<Rightarrow> int \<Rightarrow> nat option" where
  "py_index n i =
     (if 0 \<le> i \<and> i < int n then Some (nat i)
      else if - int n \<le> i \<and> i < 0 then Some (nat (int n + i))
      else None)"

text \<open>Lines 1070-1077 and 1116-1123: the position of the name in the list of class
  names, else the name read as an integer, else nothing.\<close>

definition resolve_class :: "string list \<Rightarrow> string \<Rightarrow> int option" where
  "resolve_class names t =
     (case index_of t names of Some k \<Rightarrow> Some (int k) | None \<Rightarrow> py_int t)"

text \<open>\<open>_initialize_gpu_ds\<close> (lines 826-871). Building the extraction kernel reads
  the element type of the state array, which fails on a missing array. The device
  copies of the index arrays are the arrays themselves.\<close>

definition initialize_gpu_ds :: "'m lpu_state \<Rightarrow> py_error + 'm lpu_state" where
  "initialize_gpu_ds s =
     (let s1 = s\<lparr> synapse_state := zeros (max (total_synapses s + length (input_neuron_list s)) 1)
                                        Float64,
                  V := (if total_num_gpot_neurons s > 0
                        then Some (zeros (total_num_gpot_neurons s) Float64) else None),
                  spike_state := (if total_num_spike_neurons s > 0
                                  then Some (zeros (total_num_spike_neurons s) Int32)
                                  else spike_state s) \<rparr>
      in if num_public_gpot s1 > 0 \<and> V s1 = None then Inl AttributeError
         else if num_public_spike s1 > 0 \<and> spike_state s1 = None then Inl AttributeError
         else Inr (s1\<lparr> inds_gpot := (if ports_in_gpot_mem_ind s1 \<noteq> None
                                       then sel_in_gpot_ids s1 else inds_gpot s1),
                       inds_spike := (if ports_in_spk_mem_ind s1 \<noteq> None
                                        then sel_in_spk_ids s1 else inds_spike s1) \<rparr>))"

text \<open>\<open>_instantiate_neuron\<close> (lines 1056-1100). An unresolved name is logged and the
  method returns \<open>None\<close>. A resolved class is called with a pointer into \<open>spike_state\<close> or
  \<open>V\<close>, and \<open>BaseNeuron.__init__\<close> is called with a pointer into \<open>V\<close> when the class does
  not override \<open>update_I\<close>; reading \<open>gpudata\<close> of a missing array raises
  \<open>AttributeError\<close>. What the constructors do on the device is \<open>neuron_init\<close>.\<close>

definition instantiate_neuron ::
  "'m model_sem \<Rightarrow> nat \<Rightarrow> string \<Rightarrow> neuron_cols \<Rightarrow> 'm lpu_state \<Rightarrow>
     py_error + (neuron_obj option \<times> 'm lpu_state)" where
  "instantiate_neuron sem i t n s =
     (case resolve_class (neuron_names (reg s)) t of
        None \<Rightarrow> Inr (None, log_event (LogInfo (''Error instantiating neurons of model '' @ t)) s)
      | Some ind \<Rightarrow>
          (case nc_spiking n of
             [] \<Rightarrow> Inl IndexError
           | spk # _ \<Rightarrow>
               (case py_index (length (neuron_names (reg s))) ind of
                  None \<Rightarrow> Inl IndexError
                | Some c \<Rightarrow>
                    if spk \<and> spike_state s = None then Inl AttributeError
                    else if \<not> spk \<and> V s = None then Inl AttributeError
                    else if \<not> update_I_override (reg s) c \<and> V s = None then Inl AttributeError
                    else Inr (Some (NeuronObj c i), on_device (neuron_init sem c i) s))))"

text \<open>\<open>_instantiate_synapse\<close> (lines 1102-1128).\<close>

definition instantiate_synapse ::
  "'m model_sem \<Rightarrow> nat \<Rightarrow> string \<Rightarrow> 'm lpu_state \<Rightarrow>
     py_error + (synapse_obj option \<times> 'm lpu_state)" where
  "instantiate_synapse sem i t s =
     (case resolve_class (synapse_names (reg s)) t of
        None \<Rightarrow> Inr (None, log_event (LogInfo (''Error instantiating synapses of model '' @ t)) s)
      | Some ind \<Rightarrow>
          (case py_index (length (synapse_names (reg s))) ind of
             None \<Rightarrow> Inl IndexError
           | Some c \<Rightarrow> Inr (Some (SynapseObj c i), on_device (synapse_init sem c i) s)))"

text \<open>The two list comprehensions of \<open>_init_objects\<close> (lines 765-770): every model
  but the input-port models (and but the synapse model \<open>'pass'\<close>) contributes the value
  its \<open>_instantiate_*\<close> call returns, \<open>None\<close> included.\<close>

fun instantiate_neurons ::
  "'m model_sem \<Rightarrow> (nat \<times> string \<times> neuron_cols) list \<Rightarrow> 'm lpu_state \<Rightarrow>
     py_error + (neuron_obj option list \<times> 'm lpu_state)" where
  "instantiate_neurons sem [] s = Inr ([], s)"
| "instantiate_neurons sem ((i, t, n) # rest) s =
     (if t \<noteq> PORT_IN_GPOT \<and> t \<noteq> PORT_IN_SPK
      then bind_err (instantiate_neuron sem i t n s) (\<lambda>(obj, s1).
           bind_err (instantiate_neurons sem rest s1) (\<lambda>(objs, s2). Inr (obj # objs, s2)))
      else instantiate_neurons sem rest s)"

fun instantiate_synapses ::
  "'m model_sem \<Rightarrow> (nat \<times> string \<times> synapse_compiled) list \<Rightarrow> 'm lpu_state \<Rightarrow>
     py_error + (synapse_obj option list \<times> 'm lpu_state)" where
  "instantiate_synapses sem [] s = Inr ([], s)"
| "instantiate_synapses sem ((i, t, c) # rest) s =
     (if t \<noteq> ''pass''
      then bind_err (instantiate_synapse sem i t s) (\<lambda>(obj, s1).
           bind_err (instantiate_synapses sem rest s1) (\<lambda>(objs, s2). Inr (obj # objs, s2)))
      else instantiate_synapses sem rest s)"

text \<open>\<open>h5file['/array'][a:b]\<close>.\<close>

definition h5_slice :: "h5_array \<Rightarrow> nat \<Rightarrow> nat \<Rightarrow> real list list" where
  "h5_slice f a b = take (b - a) (drop a (h5_frames f))"

text \<open>\<open>_init_objects\<close> after the two list comprehensions (lines 771-824): the ring
  buffers are built from \<open>V\<close>, the input file is opened when a name was given (\<open>file\<close> is
  what it holds) and its first window is loaded, the output and debug files start
  empty.\<close>

definition init_buffer_and_files ::
  "h5_array \<Rightarrow> neuron_obj option list \<Rightarrow> synapse_obj option list \<Rightarrow> 'm lpu_state \<Rightarrow>
     'm lpu_state" where
  "init_buffer_and_files file ns ss s =
     (let s3 = s\<lparr> neurons := ns, synapses := ss,
                   buffer := CircularArray_init (total_num_gpot_neurons s)
                               (lpu_gpot_delay_steps s)
                               (case V s of None \<Rightarrow> [] | Some v \<Rightarrow> ga_data v)
                               (total_num_spike_neurons s) (lpu_spike_delay_steps s) \<rparr>;
          s4 = (if input_file s3 \<noteq> None
                then s3\<lparr> input_h5file := file,
                         I_ext := h5_slice file 0 (one_time_import s3),
                         file_pointer := one_time_import s3,
                         frame_count := 0,
                         frames_in_buffer := one_time_import s3 \<rparr>
                else s3)
      in s4\<lparr> output_gpot_file := [], output_spike_file := [],
              gpot_buffer_file := [], synapse_state_file := [] \<rparr>)"

text \<open>\<open>_init_objects\<close> (lines 764-824).\<close>

definition init_objects :: "'m model_sem \<Rightarrow> h5_array \<Rightarrow> 'm lpu_state \<Rightarrow> py_error + 'm lpu_state" where
  "init_objects sem file s =
     bind_err (instantiate_neurons sem (enumerate 0 (n_list s)) s) (\<lambda>(ns, s1).
     bind_err (instantiate_synapses sem (enumerate 0 (s_list s1)) s1) (\<lambda>(ss, s2).
       Inr (init_buffer_and_files file ns ss s2)))"

text \<open>The arrays of the two port mappers, as \<open>Module.__init__\<close> receives them (lines
  674-677), and a state that holds the constructed unit and nothing else yet.\<close>

definition blank_state :: "'m \<Rightarrow> lpu \<Rightarrow> 'm lpu_state" where
  "blank_state m u =
     lpu.extend u
       \<lparr> first_step = False, synapse_state = zeros 0 Float64, V = None, spike_state = None,
         model_mem = m, neurons = [], synapses = [],
         buffer = CircularArray_init 0 0 [] 0 0,
         input_h5file = \<lparr> h5_channels = 0, h5_frames = [] \<rparr>, file_pointer = 0,
         I_ext = [], frame_count = 0, frames_in_buffer = 0,
         pm_gpot_data = zeros (num_public_gpot u + num_in_ports PORT_IN_GPOT (n_list u)) Float64,
         pm_spike_data = zeros (num_public_spike u + num_in_ports PORT_IN_SPK (n_list u)) Int32,
         inds_gpot = [], inds_spike = [], output_gpot_file = [], output_spike_file = [],
         gpot_buffer_file = [], synapse_state_file = [], trace = [] \<rparr>"

text \<open>\<open>pre_run\<close> (lines 695-699); \<open>Module.pre_run\<close> is outside the repository's files
  and taken to leave the attributes above alone. \<open>m\<close> is the model objects' memory
  before any of them exists.\<close>

definition pre_run :: "'m model_sem \<Rightarrow> h5_array \<Rightarrow> 'm \<Rightarrow> lpu \<Rightarrow> py_error + 'm lpu_state" where
  "pre_run sem file m u =
     bind_err (initialize_gpu_ds (blank_state m u)) (\<lambda>s1.
     bind_err (init_objects sem file s1) (\<lambda>s2.
       Inr (s2\<lparr> first_step := True \<rparr>)))"

section \<open>\<open>run_step\<close>\<close>

text \<open>\<open>_read_LPU_input\<close> (lines 873-885): the port gateway's gather into \<open>V\<close> and
  \<open>spike_state\<close>, at the start of the block of the input-port model.\<close>

definition gather_into ::
  "garray \<Rightarrow> garray option \<Rightarrow> nat list \<Rightarrow> nat \<Rightarrow> py_error + garray option" where
  "gather_into src dest inds shift =
     (case dest of
        None \<Rightarrow> Inl AttributeError
      | Some d \<Rightarrow> bind_err (set_inds src d inds shift) (\<lambda>d'. Inr (Some d')))"

definition read_LPU_input :: "'m lpu_state \<Rightarrow> py_error + 'm lpu_state" where
  "read_LPU_input s =
     bind_err (case ports_in_gpot_mem_ind s of
                 None \<Rightarrow> Inr s
               | Some k \<Rightarrow>
                   bind_err (gather_into (pm_gpot_data s) (V s) (inds_gpot s)
                               (read_at (idx_start_gpot s) k)) (\<lambda>v.
                     Inr (log_event (KernelLaunch ''set_inds'') (s\<lparr> V := v \<rparr>)))) (\<lambda>s1.
     case ports_in_spk_mem_ind s1 of
       None \<Rightarrow> Inr s1
     | Some k \<Rightarrow>
         bind_err (gather_into (pm_spike_data s1) (spike_state s1) (inds_spike s1)
                     (read_at (idx_start_spike s1) k)) (\<lambda>v.
           Inr (log_event (KernelLaunch ''set_inds'') (s1\<lparr> spike_state := v \<rparr>))))"

text \<open>A device-to-device copy of the values \<open>vals\<close> to the positions from \<open>off\<close> on.\<close>

definition copy_into :: "real list \<Rightarrow> nat \<Rightarrow> real list \<Rightarrow> real list" where
  "copy_into dest off vals = fold (\<lambda>i d. d[off + i := vals ! i]) [0..<length vals] dest"

text \<open>
  \<open>_read_external_input\<close> (lines 949-987). First the frame under the cursor is copied
  behind the synapse states, unless the file is exhausted and the window is used up.
  Then, once the cursor has reached the window size and the file is not exhausted, the
  window is refilled: with the next \<open>_one_time_import\<close> frames when that many are left
  (and the cursor returns to \<open>0\<close>), else with the frames that are left, padded with zero
  frames (and \<open>frames_in_buffer\<close> becomes their number).
\<close>

definition frame_at :: "real list list \<Rightarrow> nat \<Rightarrow> real list" where
  "frame_at w k = (if k < length w then w ! k else [])"

definition copy_frame :: "'m lpu_state \<Rightarrow> 'm lpu_state" where
  "copy_frame s =
     (if \<not> input_eof s \<or> frame_count s < frames_in_buffer s
      then s\<lparr> synapse_state :=
                 (synapse_state s)\<lparr> ga_data :=
                    copy_into (ga_data (synapse_state s)) (total_synapses s)
                      (take (num_input s) (frame_at (I_ext s) (frame_count s))) \<rparr>,
              frame_count := frame_count s + 1 \<rparr>
      else log_event (LogInfo ''Input end of file reached. Subsequent behaviour is undefined.'') s)"

definition refill_window :: "'m lpu_state \<Rightarrow> 'm lpu_state" where
  "refill_window s =
     (if frame_count s \<ge> one_time_import s \<and> \<not> input_eof s then
        let input_ld = length (h5_frames (input_h5file s));
            h_ext = (if int input_ld - int (file_pointer s) < int (one_time_import s)
                     then h5_slice (input_h5file s) (file_pointer s) input_ld
                     else h5_slice (input_h5file s) (file_pointer s)
                            (file_pointer s + one_time_import s));
            s1 = (if length h_ext = length (I_ext s)
                  then log_event (WindowRefill (length h_ext))
                         (s\<lparr> I_ext := h_ext,
                             file_pointer := file_pointer s + one_time_import s,
                             frame_count := 0 \<rparr>)
                  else log_event (WindowRefill (length h_ext))
                         (s\<lparr> frames_in_buffer := length h_ext,
                             I_ext := h_ext @ replicate (one_time_import s - length h_ext)
                                        (replicate (h5_channels (input_h5file s)) 0),
                             file_pointer := input_ld \<rparr>))
        in if file_pointer s1 = length (h5_frames (input_h5file s1))
           then s1\<lparr> input_eof := True \<rparr> else s1
      else s)"

definition read_external_input :: "'m lpu_state \<Rightarrow> 'm lpu_state" where
  "read_external_input s = refill_window (copy_frame s)"

text \<open>The loop over \<open>self.neurons\<close> (lines 733-735); \<open>k\<close> is the position in the list.
  Calling a method on \<open>None\<close> raises \<open>AttributeError\<close> and ends the step.\<close>

fun update_neurons ::
  "'m model_sem \<Rightarrow> nat \<Rightarrow> neuron_obj option list \<Rightarrow> 'm lpu_state \<Rightarrow> py_error + 'm lpu_state" where
  "update_neurons sem k [] s = Inr s"
| "update_neurons sem k (None # rest) s = Inl AttributeError"
| "update_neurons sem k (Some (NeuronObj c i) # rest) s =
     update_neurons sem (Suc k) rest
       (log_event (NeuronEval k) (on_device (neuron_eval sem c i)
         (log_event (NeuronUpdateI k) (on_device (neuron_update_I sem c i) s))))"

text \<open>\<open>_update_buffer\<close> (lines 989-1003): the current states are written to the row
  under each cursor.\<close>

definition update_buffer :: "'m lpu_state \<Rightarrow> py_error + 'm lpu_state" where
  "update_buffer s =
     bind_err (if total_num_gpot_neurons s > 0 then
                 (case V s of
                    None \<Rightarrow> Inl AttributeError
                  | Some v \<Rightarrow>
                      Inr (s\<lparr> buffer := (buffer s)\<lparr> gpot_buffer :=
                              (gpot_buffer (buffer s))[nat (gpot_current (buffer s)) :=
                                 take (total_num_gpot_neurons s) (ga_data v)] \<rparr> \<rparr>))
               else Inr s) (\<lambda>s1.
     bind_err (if total_num_spike_neurons s1 > 0 then
                 (case spike_state s1 of
                    None \<Rightarrow> Inl AttributeError
                  | Some v \<Rightarrow>
                      Inr (s1\<lparr> buffer := (buffer s1)\<lparr> spike_buffer :=
                              (spike_buffer (buffer s1))[nat (spike_current (buffer s1)) :=
                                 take (total_num_spike_neurons s1) (ga_data v)] \<rparr> \<rparr>))
               else Inr s1) (\<lambda>s2.
       Inr (log_event UpdateBuffer s2)))"

text \<open>The loop over \<open>self.synapses\<close> (lines 739-742). \<open>hasattr(None, 'update_I')\<close> is
  false, and \<open>None.update_state\<close> raises \<open>AttributeError\<close>.\<close>

fun update_synapses ::
  "'m model_sem \<Rightarrow> nat \<Rightarrow> synapse_obj option list \<Rightarrow> 'm lpu_state \<Rightarrow> py_error + 'm lpu_state" where
  "update_synapses sem k [] s = Inr s"
| "update_synapses sem k (None # rest) s = Inl AttributeError"
| "update_synapses sem k (Some (SynapseObj c i) # rest) s =
     (let s1 = (if has_update_I (reg s) c
                then log_event (SynapseUpdateI k) (on_device (synapse_update_I sem c i) s)
                else s)
      in update_synapses sem (Suc k) rest
           (log_event (SynapseUpdateState k)
              (on_device (synapse_update_state sem c i (buffer s1)) s1)))"

text \<open>Lines 732-746: the model evaluation of a step, skipped on the first step.\<close>

definition evaluate_models :: "'m model_sem \<Rightarrow> 'm lpu_state \<Rightarrow> py_error + 'm lpu_state" where
  "evaluate_models sem s =
     (if \<not> first_step s then
        bind_err (update_neurons sem 0 (neurons s) s) (\<lambda>s1.
        bind_err (update_buffer s1) (\<lambda>s2.
        bind_err (update_synapses sem 0 (synapses s2) s2) (\<lambda>s3.
          Inr (log_event BufferStep (s3\<lparr> buffer := step (buffer s3) \<rparr>)))))
      else Inr (s\<lparr> first_step := False \<rparr>))"

text \<open>Lines 748-756: in debug mode the whole graded ring and the synapse states are
  appended to their files.\<close>

definition debug_append :: "'m lpu_state \<Rightarrow> 'm lpu_state" where
  "debug_append s =
     (if debug s then
        (let s1 = (if total_num_gpot_neurons s > 0
                   then s\<lparr> gpot_buffer_file := gpot_buffer_file s @ [gpot_buffer (buffer s)] \<rparr>
                   else s)
         in if total_synapses s1 + num_input s1 > 0
            then s1\<lparr> synapse_state_file :=
                       synapse_state_file s1 @ [ga_data (synapse_state s1)] \<rparr>
            else s1)
      else s)"

text \<open>\<open>_extract_output\<close> (lines 905-934): the port gateway's scatter. The prepared
  kernel is called with the device pointers of the two arrays; no element type is
  compared.\<close>

definition scatter_from ::
  "garray option \<Rightarrow> garray \<Rightarrow> nat list \<Rightarrow> nat list \<Rightarrow> nat \<Rightarrow> py_error + garray" where
  "scatter_from state proj all_index projection_index N =
     (case state of
        None \<Rightarrow> Inl AttributeError
      | Some v \<Rightarrow>
          Inr (proj\<lparr> ga_data :=
                 extract_projection (ga_data v) (ga_data proj) all_index projection_index N \<rparr>))"

definition extract_output :: "'m lpu_state \<Rightarrow> py_error + 'm lpu_state" where
  "extract_output s =
     bind_err (if num_public_gpot s > 0 then
                 bind_err (scatter_from (V s) (pm_gpot_data s) (out_ports_ids_gpot s)
                             (sel_out_gpot_ids s) (num_public_gpot s)) (\<lambda>p.
                   Inr (log_event (KernelLaunch ''extract_projection'')
                          (s\<lparr> pm_gpot_data := p \<rparr>)))
               else Inr s) (\<lambda>s1.
     if num_public_spike s1 > 0 then
       bind_err (scatter_from (spike_state s1) (pm_spike_data s1) (out_ports_ids_spk s1)
                   (sel_out_spk_ids s1) (num_public_spike s1)) (\<lambda>p.
         Inr (log_event (KernelLaunch ''extract_projection'')
                (s1\<lparr> pm_spike_data := p \<rparr>)))
     else Inr s1)"

text \<open>\<open>_write_output\<close> (lines 936-947): one row per kind, read through
  \<open>gpot_order_l\<close> and \<open>spike_order_l\<close>.\<close>

definition write_output :: "'m lpu_state \<Rightarrow> py_error + 'm lpu_state" where
  "write_output s =
     bind_err (if total_num_gpot_neurons s > 0 then
                 (case V s of
                    None \<Rightarrow> Inl AttributeError
                  | Some v \<Rightarrow> bind_err (take_inds (ga_data v) (gpot_order_l s)) (\<lambda>row.
                      Inr (s\<lparr> output_gpot_file := output_gpot_file s @ [row] \<rparr>)))
               else Inr s) (\<lambda>s1.
     if total_num_spike_neurons s1 > 0 then
       (case spike_state s1 of
          None \<Rightarrow> Inl AttributeError
        | Some v \<Rightarrow> bind_err (take_inds (ga_data v) (spike_order_l s1)) (\<lambda>row.
            Inr (s1\<lparr> output_spike_file := output_spike_file s1 @ [row] \<rparr>)))
     else Inr s1)"

text \<open>\<open>run_step\<close> (lines 724-762); \<open>Module.run_step\<close> is outside the repository's
  files and taken to leave the attributes above alone.\<close>

definition run_step :: "'m model_sem \<Rightarrow> 'm lpu_state \<Rightarrow> py_error + 'm lpu_state" where
  "run_step sem s =
     bind_err (read_LPU_input s) (\<lambda>s1.
     bind_err (evaluate_models sem
                 (if input_file s1 \<noteq> None then read_external_input s1 else s1)) (\<lambda>s2.
     bind_err (extract_output (debug_append s2)) (\<lambda>s3.
       if lpu_output s3 then write_output s3 else Inr s3)))"

text \<open>The number of neurons of the kind of position \<open>i\<close> of \<open>n_id\<close> that come before it.\<close>

definition rank_gpot :: "(string \<times> neuron_cols) list \<Rightarrow> nat \<Rightarrow> nat" where
  "rank_gpot nl i = length (mask (take i (n_id nl)) (take i (map Not (n_is_spk nl))))"

definition rank_spike :: "(string \<times> neuron_cols) list \<Rightarrow> nat \<Rightarrow> nat" where
  "rank_spike nl i = length (mask (take i (n_id nl)) (take i (n_is_spk nl)))"

definition two_models :: "(string \<times> neuron_cols) list" where
  "two_models =
     [(''A'', \<lparr> nc_id = [0, 2], nc_spiking = [False, False], nc_public = [False, False],
               nc_extern = [False, False], nc_selector = ['''', ''''] \<rparr>),
      (''B'', \<lparr> nc_id = [1], nc_spiking = [False], nc_public = [False],
               nc_extern = [False], nc_selector = [''''] \<rparr>)]"

definition mixed_models :: "(string \<times> neuron_cols) list" where
  "mixed_models =
     [(''A'', \<lparr> nc_id = [0, 2], nc_spiking = [False, False], nc_public = [False, False],
               nc_extern = [False, False], nc_selector = ['''', ''''] \<rparr>),
      (''B'', \<lparr> nc_id = [1, 4], nc_spiking = [True, True], nc_public = [False, False],
               nc_extern = [False, False], nc_selector = ['''', ''''] \<rparr>),
      (''C'', \<lparr> nc_id = [3], nc_spiking = [False], nc_public = [False],
               nc_extern = [False], nc_selector = [''''] \<rparr>)]"

text \<open>What lines 540-542 leave of a model \<open>s\<close> whose \<open>pre\<close> and \<open>post\<close> columns resolved to
  \<open>pre\<close> and \<open>post\<close>: every column is read through the one index array \<open>ord\<close>.\<close>

definition permuted_model ::
  "nat list \<Rightarrow> nat list \<Rightarrow> int list \<Rightarrow> synapse_cols \<Rightarrow> synapse_compiled \<Rightarrow> bool" where
  "permuted_model ord pre post s s' \<longleftrightarrow>
     cs_id s' = map (\<lambda>i. sc_id s ! i) ord \<and>
     cs_class s' = map (\<lambda>i. sc_class s ! i) ord \<and>
     cs_conductance s' = map (\<lambda>i. sc_conductance s ! i) ord \<and>
     cs_reverse s' = map_option (\<lambda>r. map (\<lambda>i. r ! i) ord) (sc_reverse s) \<and>
     cs_delay s' = map_option (\<lambda>d. map (\<lambda>i. d ! i) ord) (sc_delay s) \<and>
     cs_pre s' = map (\<lambda>i. pre ! i) ord \<and>
     cs_post s' = map (\<lambda>i. post ! i) ord"





text \<open>A registry of three neuron classes and one synapse class, and a unit without
  ports.\<close>

definition demo_registry :: registry where
  "demo_registry =
     \<lparr> neuron_names = [''A'', ''B'', ''C''], synapse_names = [''Alpha''],
       update_I_override = (\<lambda>c. True), has_update_I = (\<lambda>c. False) \<rparr>"

definition no_ports :: port_inds where
  "no_ports = \<lparr> p_sel_in_gpot_ids = [], p_sel_out_gpot_ids = [], p_sel_in_spk_ids = [],
                p_sel_out_spk_ids = [] \<rparr>"


text \<open>A unit with one public graded neuron whose state array holds 64-bit floats while
  the port array it is scattered to holds 32-bit integers. No method of the class
  produces such a pair; it is the input on which the two gateway operations differ.\<close>

definition mismatched_state :: "unit lpu_state" where
  "mismatched_state =
     (blank_state () (projr (LPU_init argsort_stable demo_registry no_ports (1 / 1000)
        mixed_models [] None None False)))
       \<lparr> V := Some \<lparr> ga_dtype = Float64, ga_data = [0, 0, 0] \<rparr>,
         pm_gpot_data := \<lparr> ga_dtype = Int32, ga_data = [0] \<rparr>,
         num_public_gpot := 1, out_ports_ids_gpot := [0], sel_out_gpot_ids := [0],
         ports_in_gpot_mem_ind := Some 0, inds_gpot := [0] \<rparr>"

fun is_refill :: "event \<Rightarrow> bool" where
  "is_refill (WindowRefill n) = True"
| "is_refill e = False"

text \<open>The reader of the external-current file between two refills, for the default
  window of 10 frames: the file, the refills logged so far, the window, the file
  pointer and the cursor; the end of the file has not been seen.\<close>

definition feeder_at ::
  "h5_array \<Rightarrow> event list \<Rightarrow> real list list \<Rightarrow> nat \<Rightarrow> nat \<Rightarrow> 'm lpu_state \<Rightarrow> bool" where
  "feeder_at file refills window fp n s \<longleftrightarrow>
     one_time_import s = 10 \<and> input_h5file s = file \<and> I_ext s = window \<and>
     file_pointer s = fp \<and> frame_count s = n \<and> frames_in_buffer s = 10 \<and>
     \<not> input_eof s \<and> filter is_refill (trace s) = refills"

text \<open>Model classes that do nothing, a unit with one graded neuron that takes external
  current from a file, and a file of 25 frames of one channel: frame \<open>k\<close> holds \<open>k\<close>.\<close>

definition idle_sem :: "unit model_sem" where
  "idle_sem =
     \<lparr> neuron_init = (\<lambda>c i d. d), neuron_update_I = (\<lambda>c i d. d),
       neuron_eval = (\<lambda>c i d. d), synapse_init = (\<lambda>c i d. d),
       synapse_update_I = (\<lambda>c i d. d), synapse_update_state = (\<lambda>c i b d. d) \<rparr>"




text \<open>Three graded models of one neuron each; the registry knows the classes \<open>A\<close> and
  \<open>C\<close> and no class \<open>Bogus\<close>. No input file is attached.\<close>

definition bogus_models :: "(string \<times> neuron_cols) list" where
  "bogus_models =
     [(''A'', \<lparr> nc_id = [0], nc_spiking = [False], nc_public = [False],
               nc_extern = [False], nc_selector = [[]] \<rparr>),
      (''Bogus'', \<lparr> nc_id = [1], nc_spiking = [False], nc_public = [False],
               nc_extern = [False], nc_selector = [[]] \<rparr>),
      (''C'', \<lparr> nc_id = [2], nc_spiking = [False], nc_public = [False],
               nc_extern = [False], nc_selector = [[]] \<rparr>)]"

definition no_file :: h5_array where
  "no_file = \<lparr> h5_channels = 0, h5_frames = [] \<rparr>"

definition bogus_unit :: "py_error + lpu" where
  "bogus_unit =
     LPU_init argsort_stable demo_registry no_ports (1 / 1000) bogus_models [] None None False"

definition bogus_state :: "py_error + unit lpu_state" where
  "bogus_state = pre_run idle_sem no_file () (projr bogus_unit)"

text \<open>The events of model evaluation: the calls into neuron and synapse objects, the
  write to the ring buffers and the advance of their cursors.\<close>

fun is_model_event :: "event \<Rightarrow> bool" where
  "is_model_event (NeuronUpdateI k) = True"
| "is_model_event (NeuronEval k) = True"
| "is_model_event UpdateBuffer = True"
| "is_model_event (SynapseUpdateI k) = True"
| "is_model_event (SynapseUpdateState k) = True"
| "is_model_event BufferStep = True"
| "is_model_event e = False"

text \<open>One \<open>update_I\<close> and one \<open>eval\<close> for each of \<open>n\<close> neuron objects from position \<open>k\<close> on,
  and the calls into the synapse objects from position \<open>k\<close> on (\<open>update_I\<close> only for the
  classes that define it).\<close>

definition neuron_events :: "nat \<Rightarrow> nat \<Rightarrow> event list" where
  "neuron_events k n = concat (map (\<lambda>j. [NeuronUpdateI j, NeuronEval j]) [k..<k + n])"

fun synapse_events :: "registry \<Rightarrow> nat \<Rightarrow> synapse_obj option list \<Rightarrow> event list" where
  "synapse_events rg k [] = []"
| "synapse_events rg k (None # rest) = synapse_events rg (Suc k) rest"
| "synapse_events rg k (Some (SynapseObj c i) # rest) =
     (if has_update_I rg c then [SynapseUpdateI k] else []) @ [SynapseUpdateState k]
       @ synapse_events rg (Suc k) rest"

text \<open>What of a state the model objects and the step's control read and write, apart
  from the state arrays: used to say that a part of the step leaves all of it alone.\<close>

definition host_view ::
  "'m lpu_state \<Rightarrow> bool \<times> neuron_obj option list \<times> synapse_obj option list \<times> circular_array \<times>
     'm \<times> registry \<times> event list" where
  "host_view s =
     (first_step s, neurons s, synapses s, buffer s, model_mem s, reg s,
      filter is_model_event (trace s))"

text \<open>Two ring buffers that agree on everything but the buffered rows.\<close>

definition same_cursors :: "circular_array \<Rightarrow> circular_array \<Rightarrow> bool" where
  "same_cursors b b' \<longleftrightarrow>
     num_gpot_neurons b = num_gpot_neurons b' \<and> gpot_delay_steps b = gpot_delay_steps b' \<and>
     gpot_current b = gpot_current b' \<and> num_spike_neurons b = num_spike_neurons b' \<and>
     spike_delay_steps b = spike_delay_steps b' \<and> spike_current b = spike_current b'"

text \<open>A unit with one graded neuron and one graded input port; the port manager's
  array holds 7 for the port when the first step starts.\<close>

definition ported_models :: "(string \<times> neuron_cols) list" where
  "ported_models =
     [(''A'', \<lparr> nc_id = [0], nc_spiking = [False], nc_public = [False],
               nc_extern = [False], nc_selector = [[]] \<rparr>),
      (''port_in_gpot'', \<lparr> nc_id = [1], nc_spiking = [False], nc_public = [False],
               nc_extern = [False], nc_selector = [''/a/in''] \<rparr>)]"

definition one_in_port :: port_inds where
  "one_in_port = \<lparr> p_sel_in_gpot_ids = [0], p_sel_out_gpot_ids = [], p_sel_in_spk_ids = [],
                p_sel_out_spk_ids = [] \<rparr>"

definition ported_state :: "unit lpu_state" where
  "ported_state =
     (projr (pre_run idle_sem no_file ()
       (projr (LPU_init argsort_stable demo_registry one_in_port (1 / 1000) ported_models []
                 None None False))))
       \<lparr> pm_gpot_data := \<lparr> ga_dtype = Float64, ga_data = [7] \<rparr> \<rparr>"

definition ported_after :: "unit lpu_state" where
  "ported_after = projr (run_step idle_sem ported_state)"


text \<open>Lines 536-537 for one entry of the \<open>post\<close> column: what the entry of a record
  resolves to by itself (\<open>None\<close> when it names a neuron the unit does not have).\<close>

fun is_synapse_post :: "post_ref \<Rightarrow> bool" where
  "is_synapse_post (SynapsePost k) = True"
| "is_synapse_post (NeuronPost k) = False"


text \<open>Line 538 puts the resolved neuron targets before the resolved synapse targets.
  The column keeps its order exactly when no entry that names a synapse comes before one
  that names a neuron.\<close>

definition neuron_first :: "post_ref list \<Rightarrow> bool" where
  "neuron_first posts \<longleftrightarrow>
     posts = filter (\<lambda>p. \<not> is_synapse_post p) posts @ filter is_synapse_post posts"


text \<open>
  The synapse half of \<open>graph_to_dicts\<close> (lines 193-224), as far as the \<open>post\<close> columns
  go. An edge is its source, its target and its model. The edges are sorted with
  \<open>synapse_cmp\<close> (lines 1170-1190): targets that name a neuron before targets that name
  a synapse, and by the integer of the name within each kind. \<open>list.sort\<close> is stable; it
  is an insertion sort here. The \<open>post\<close> column of a model is then the targets of the
  model's edges, in the sorted order.
\<close>

record edge =
  e_pre :: int
  e_post :: post_ref
  e_model :: string

fun post_int :: "post_ref \<Rightarrow> int" where
  "post_int (NeuronPost k) = k"
| "post_int (SynapsePost k) = k"

definition synapse_cmp :: "edge \<Rightarrow> edge \<Rightarrow> int" where
  "synapse_cmp x y =
     (let pre_x = is_synapse_post (e_post x); pre_y = is_synapse_post (e_post y);
          int_x = post_int (e_post x); int_y = post_int (e_post y)
      in if pre_x \<and> \<not> pre_y then 1
         else if \<not> pre_x \<and> pre_y then - 1
         else if int_x < int_y then - 1
         else if int_x > int_y then 1
         else 0)"

fun insort_cmp :: "('a \<Rightarrow> 'a \<Rightarrow> int) \<Rightarrow> 'a \<Rightarrow> 'a list \<Rightarrow> 'a list" where
  "insort_cmp c x [] = [x]"
| "insort_cmp c x (y # ys) = (if c x y \<le> 0 then x # y # ys else y # insort_cmp c x ys)"

definition sort_cmp :: "('a \<Rightarrow> 'a \<Rightarrow> int) \<Rightarrow> 'a list \<Rightarrow> 'a list" where
  "sort_cmp c xs = foldr (insort_cmp c) xs []"

definition graph_posts :: "string \<Rightarrow> edge list \<Rightarrow> post_ref list" where
  "graph_posts m es = map e_post (filter (\<lambda>e. e_model e = m) (sort_cmp synapse_cmp es))"


section \<open>Properties of the delay lines\<close>

lemma step_fields [simp]:
  "num_gpot_neurons (step b) = num_gpot_neurons b"
  "num_spike_neurons (step b) = num_spike_neurons b"
  "gpot_delay_steps (step b) = gpot_delay_steps b"
  "spike_delay_steps (step b) = spike_delay_steps b"
  "gpot_buffer (step b) = gpot_buffer b"
  "spike_buffer (step b) = spike_buffer b"
  by (simp_all add: step_def step_gpot_def step_spike_def Let_def)

lemma step_pow_fields [simp]:
  "num_gpot_neurons ((step ^^ n) b) = num_gpot_neurons b"
  "num_spike_neurons ((step ^^ n) b) = num_spike_neurons b"
  "gpot_delay_steps ((step ^^ n) b) = gpot_delay_steps b"
  "spike_delay_steps ((step ^^ n) b) = spike_delay_steps b"
  by (induction n) simp_all

lemma step_gpot_current:
  assumes "0 < num_gpot_neurons b" "0 \<le> gpot_current b" "gpot_current b < gpot_delay_steps b"
  shows "gpot_current (step b) = (gpot_current b + 1) mod gpot_delay_steps b"
proof (cases "gpot_current b + 1 = gpot_delay_steps b")
  case True
  then show ?thesis using assms
    by (simp add: step_def step_gpot_def step_spike_def Let_def)
next
  case False
  with assms have lt: "gpot_current b + 1 < gpot_delay_steps b" by simp
  with assms have "(gpot_current b + 1) mod gpot_delay_steps b = gpot_current b + 1"
    by simp
  with lt assms show ?thesis
    by (simp add: step_def step_gpot_def step_spike_def Let_def)
qed

lemma step_spike_current:
  assumes "0 < num_spike_neurons b" "0 \<le> spike_current b" "spike_current b < spike_delay_steps b"
  shows "spike_current (step b) = (spike_current b + 1) mod spike_delay_steps b"
proof (cases "spike_current b + 1 = spike_delay_steps b")
  case True
  then show ?thesis using assms
    by (simp add: step_def step_gpot_def step_spike_def Let_def)
next
  case False
  with assms have lt: "spike_current b + 1 < spike_delay_steps b" by simp
  with assms have "(spike_current b + 1) mod spike_delay_steps b = spike_current b + 1"
    by simp
  with lt assms show ?thesis
    by (simp add: step_def step_gpot_def step_spike_def Let_def)
qed

lemma step_pow_gpot_current:
  assumes "0 < num_gpot_neurons b" "0 \<le> gpot_current b" "gpot_current b < gpot_delay_steps b"
  shows "gpot_current ((step ^^ n) b) = (gpot_current b + int n) mod gpot_delay_steps b"
proof (induction n)
  case 0
  from assms show ?case by simp
next
  case (Suc n)
  let ?b = "(step ^^ n) b"
  have d: "0 < gpot_delay_steps b" using assms by linarith
  have rng: "0 \<le> gpot_current ?b" "gpot_current ?b < gpot_delay_steps ?b"
    using Suc d by simp_all
  have "gpot_current (step ?b) = (gpot_current ?b + 1) mod gpot_delay_steps ?b"
    using assms(1) rng by (intro step_gpot_current) simp_all
  also have "\<dots> = ((gpot_current b + int n) mod gpot_delay_steps b + 1) mod gpot_delay_steps b"
    using Suc by simp
  also have "\<dots> = ((gpot_current b + int n) + 1) mod gpot_delay_steps b"
    by (rule mod_add_left_eq)
  also have "(gpot_current b + int n) + 1 = gpot_current b + int (Suc n)"
    by simp
  finally show ?case by simp
qed

lemma step_pow_spike_current:
  assumes "0 < num_spike_neurons b" "0 \<le> spike_current b" "spike_current b < spike_delay_steps b"
  shows "spike_current ((step ^^ n) b) = (spike_current b + int n) mod spike_delay_steps b"
proof (induction n)
  case 0
  from assms show ?case by simp
next
  case (Suc n)
  let ?b = "(step ^^ n) b"
  have d: "0 < spike_delay_steps b" using assms by linarith
  have rng: "0 \<le> spike_current ?b" "spike_current ?b < spike_delay_steps ?b"
    using Suc d by simp_all
  have "spike_current (step ?b) = (spike_current ?b + 1) mod spike_delay_steps ?b"
    using assms(1) rng by (intro step_spike_current) simp_all
  also have "\<dots> = ((spike_current b + int n) mod spike_delay_steps b + 1) mod spike_delay_steps b"
    using Suc by simp
  also have "\<dots> = ((spike_current b + int n) + 1) mod spike_delay_steps b"
    by (rule mod_add_left_eq)
  also have "(spike_current b + int n) + 1 = spike_current b + int (Suc n)"
    by simp
  finally show ?case by simp
qed

text \<open>
  Claim C5. For a ring of depth \<open>d \<ge> 1\<close> of a kind the unit has neurons of, whose
  cursor lies in \<open>[0, d)\<close>: one call of \<open>step\<close> moves the cursor to \<open>(cursor + 1) mod d\<close>,
  after any number of calls the cursor is still in \<open>[0, d)\<close>, and after exactly \<open>d\<close>
  calls it is back at its initial value. Stated for the graded and for the spike ring.
\<close>

theorem C5_cursor_wraparound:
  "(0 < num_gpot_neurons b \<and> 1 \<le> gpot_delay_steps b \<and>
      0 \<le> gpot_current b \<and> gpot_current b < gpot_delay_steps b \<longrightarrow>
      gpot_current (step b) = (gpot_current b + 1) mod gpot_delay_steps b \<and>
      (\<forall>n. 0 \<le> gpot_current ((step ^^ n) b) \<and>
           gpot_current ((step ^^ n) b) < gpot_delay_steps b) \<and>
      gpot_current ((step ^^ nat (gpot_delay_steps b)) b) = gpot_current b) \<and>
   (0 < num_spike_neurons b \<and> 1 \<le> spike_delay_steps b \<and>
      0 \<le> spike_current b \<and> spike_current b < spike_delay_steps b \<longrightarrow>
      spike_current (step b) = (spike_current b + 1) mod spike_delay_steps b \<and>
      (\<forall>n. 0 \<le> spike_current ((step ^^ n) b) \<and>
           spike_current ((step ^^ n) b) < spike_delay_steps b) \<and>
      spike_current ((step ^^ nat (spike_delay_steps b)) b) = spike_current b)"
proof (intro conjI impI)
  assume a: "0 < num_gpot_neurons b \<and> 1 \<le> gpot_delay_steps b \<and>
      0 \<le> gpot_current b \<and> gpot_current b < gpot_delay_steps b"
  then show "gpot_current (step b) = (gpot_current b + 1) mod gpot_delay_steps b"
    by (simp add: step_gpot_current)
  from a show "\<forall>n. 0 \<le> gpot_current ((step ^^ n) b) \<and>
           gpot_current ((step ^^ n) b) < gpot_delay_steps b"
    by (simp add: step_pow_gpot_current)
  from a show "gpot_current ((step ^^ nat (gpot_delay_steps b)) b) = gpot_current b"
    by (simp add: step_pow_gpot_current)
next
  assume a: "0 < num_spike_neurons b \<and> 1 \<le> spike_delay_steps b \<and>
      0 \<le> spike_current b \<and> spike_current b < spike_delay_steps b"
  then show "spike_current (step b) = (spike_current b + 1) mod spike_delay_steps b"
    by (simp add: step_spike_current)
  from a show "\<forall>n. 0 \<le> spike_current ((step ^^ n) b) \<and>
           spike_current ((step ^^ n) b) < spike_delay_steps b"
    by (simp add: step_pow_spike_current)
  from a show "spike_current ((step ^^ nat (spike_delay_steps b)) b) = spike_current b"
    by (simp add: step_pow_spike_current)
qed

theorem C5_cursor_wraparound_witness:
  "gpot_current (step (CircularArray_init 2 3 [1/2, 3/4] 1 2)) = 1 \<and>
   gpot_current ((step ^^ 2) (CircularArray_init 2 3 [1/2, 3/4] 1 2)) \<in> {0..<3} \<and>
   gpot_current ((step ^^ 3) (CircularArray_init 2 3 [1/2, 3/4] 1 2)) = 0 \<and>
   spike_current (step (CircularArray_init 2 3 [1/2, 3/4] 1 2)) = 1 \<and>
   spike_current ((step ^^ 2) (CircularArray_init 2 3 [1/2, 3/4] 1 2)) = 0"
  using C5_cursor_wraparound [of "CircularArray_init 2 3 [1/2, 3/4] 1 2"]
  by (simp add: CircularArray_init_def)

lemma dict_put_pair: "dict_put (n, x) d = d(x \<mapsto> n)"
  by (simp add: dict_put_def)

lemma fold_enumerate_dict:
  "distinct xs \<Longrightarrow>
   fold dict_put (enumerate n xs) d
     = d ++ map_of (map (\<lambda>(i, k). (k, i)) (enumerate n xs))"
proof (induction xs arbitrary: n d)
  case Nil
  then show ?case by simp
next
  case (Cons x xs)
  have notin: "map_of (map (\<lambda>(i, k). (k, i)) (enumerate (Suc n) xs)) x = None"
    using Cons.prems by (auto simp: map_of_eq_None_iff image_iff in_set_enumerate_eq)
  have dist: "distinct xs" using Cons.prems by simp
  have "fold dict_put (enumerate n (x # xs)) d
        = fold dict_put (enumerate (Suc n) xs) (d(x \<mapsto> n))"
    by (simp add: dict_put_pair)
  also have "\<dots> = (d(x \<mapsto> n)) ++ map_of (map (\<lambda>(i, k). (k, i)) (enumerate (Suc n) xs))"
    by (rule Cons.IH [OF dist])
  also have "\<dots> = d ++ map_of (map (\<lambda>(i, k). (k, i)) (enumerate n (x # xs)))"
  proof (rule ext)
    fix a
    show "((d(x \<mapsto> n)) ++ map_of (map (\<lambda>(i, k). (k, i)) (enumerate (Suc n) xs))) a
          = (d ++ map_of (map (\<lambda>(i, k). (k, i)) (enumerate n (x # xs)))) a"
      using notin by (cases "a = x") (simp_all add: map_add_def split: option.split)
  qed
  finally show ?case .
qed

lemma enumerate_dict_map_of:
  assumes "distinct xs"
  shows "enumerate_dict xs = map_of (zip xs [0..<length xs])"
proof -
  have "map (\<lambda>(i, k). (k, i)) (enumerate 0 xs) = zip xs [0..<length xs]"
    by (simp add: enumerate_eq_zip zip_commute [of xs])
  then show ?thesis
    using fold_enumerate_dict [OF assms, of 0 Map.empty] by (simp add: enumerate_dict_def)
qed

lemma enumerate_dict_nth:
  assumes "distinct xs" "i < length xs"
  shows "enumerate_dict xs (xs ! i) = Some i"
proof -
  have "map_of (zip xs [0..<length xs]) (xs ! i) = Some ([0..<length xs] ! i)"
    using assms by (intro map_of_zip_nth) simp_all
  then show ?thesis using assms by (simp add: enumerate_dict_map_of)
qed

lemma enumerate_dict_dom:
  assumes "distinct xs"
  shows "dom (enumerate_dict xs) = set xs"
  using assms by (simp add: enumerate_dict_map_of dom_map_of_zip)

lemma enumerate_dict_bij:
  assumes "distinct xs"
  shows "bij_betw (\<lambda>k. the (enumerate_dict xs k)) (set xs) {0..<length xs}"
proof (rule bij_betwI')
  fix x y assume "x \<in> set xs" "y \<in> set xs"
  then obtain i j where ij: "i < length xs" "x = xs ! i" "j < length xs" "y = xs ! j"
    by (auto simp: in_set_conv_nth)
  then show "(the (enumerate_dict xs x) = the (enumerate_dict xs y)) = (x = y)"
    using assms by (auto simp: enumerate_dict_nth nth_eq_iff_index_eq)
next
  fix x assume "x \<in> set xs"
  then obtain i where "i < length xs" "x = xs ! i" by (auto simp: in_set_conv_nth)
  then show "the (enumerate_dict xs x) \<in> {0..<length xs}"
    using assms by (simp add: enumerate_dict_nth)
next
  fix p assume "p \<in> {0..<length xs}"
  then have "xs ! p \<in> set xs" "p = the (enumerate_dict xs (xs ! p))"
    using assms by (simp_all add: enumerate_dict_nth)
  then show "\<exists>x\<in>set xs. p = the (enumerate_dict xs x)" by blast
qed

lemma mask_split_perm:
  "length bs = length xs \<Longrightarrow> set (mask xs (map Not bs)) \<union> set (mask xs bs) = set xs"
  unfolding mask_def
proof (induction xs arbitrary: bs)
  case Nil then show ?case by simp
next
  case (Cons x xs)
  then obtain b bs' where "bs = b # bs'" by (cases bs) auto
  with Cons show ?case by (cases b) auto
qed

lemma mask_distinct:
  "distinct xs \<Longrightarrow> distinct (mask xs bs)"
  unfolding mask_def
proof (induction xs arbitrary: bs)
  case Nil then show ?case by simp
next
  case (Cons x xs)
  show ?case
  proof (cases bs)
    case Nil then show ?thesis by simp
  next
    case (Cons b bs')
    with Cons.prems Cons.IH [of bs'] show ?thesis
      by (auto dest!: set_zip_leftD)
  qed
qed

lemma mask_disjoint:
  "distinct xs \<Longrightarrow> set (mask xs (map Not bs)) \<inter> set (mask xs bs) = {}"
  unfolding mask_def
proof (induction xs arbitrary: bs)
  case Nil then show ?case by simp
next
  case (Cons x xs)
  show ?case
  proof (cases bs)
    case Nil then show ?thesis by simp
  next
    case (Cons b bs')
    with Cons.prems Cons.IH [of bs'] show ?thesis
      by (auto dest!: set_zip_leftD)
  qed
qed

lemma mask_length_split:
  "length bs = length xs \<Longrightarrow> length (mask xs (map Not bs)) + length (mask xs bs) = length xs"
  unfolding mask_def
proof (induction xs arbitrary: bs)
  case Nil then show ?case by simp
next
  case (Cons x xs)
  then obtain b bs' where "bs = b # bs'" by (cases bs) auto
  with Cons show ?case by (cases b) auto
qed

lemma mask_append:
  "length xs = length bs \<Longrightarrow> mask (xs @ ys) (bs @ cs) = mask xs bs @ mask ys cs"
  by (simp add: mask_def)

lemma mask_nth_rank:
  assumes "length bs = length xs" "i < length xs" "bs ! i"
  shows "length (mask (take i xs) (take i bs)) < length (mask xs bs) \<and>
         mask xs bs ! length (mask (take i xs) (take i bs)) = xs ! i"
proof -
  have xs: "xs = take i xs @ (xs ! i # drop (Suc i) xs)"
    using assms(2) by (rule id_take_nth_drop)
  have "i < length bs" using assms by simp
  then have bs: "bs = take i bs @ (bs ! i # drop (Suc i) bs)"
    by (rule id_take_nth_drop)
  have "mask xs bs = mask (take i xs @ (xs ! i # drop (Suc i) xs)) (take i bs @ (bs ! i # drop (Suc i) bs))"
    using xs bs by metis
  also have "\<dots> = mask (take i xs) (take i bs) @ mask (xs ! i # drop (Suc i) xs) (bs ! i # drop (Suc i) bs)"
    using assms by (intro mask_append) simp
  also have "mask (xs ! i # drop (Suc i) xs) (bs ! i # drop (Suc i) bs)
             = xs ! i # mask (drop (Suc i) xs) (drop (Suc i) bs)"
    using assms(3) by (simp add: mask_def)
  finally have eq: "mask xs bs
      = mask (take i xs) (take i bs) @ (xs ! i # mask (drop (Suc i) xs) (drop (Suc i) bs))" .
  have "length (mask (take i xs) (take i bs)) < length (mask xs bs)"
    by (subst eq) simp
  moreover have "mask xs bs ! length (mask (take i xs) (take i bs)) = xs ! i"
    by (subst eq) (rule nth_append_length)
  ultimately show ?thesis by simp
qed

lemma mask_rank_mono:
  assumes "length bs = length xs" "i < j" "j \<le> length xs" "bs ! i"
  shows "length (mask (take i xs) (take i bs)) < length (mask (take j xs) (take j bs))"
proof -
  have "length (mask (take i (take j xs)) (take i (take j bs))) < length (mask (take j xs) (take j bs))"
    using assms by (intro conjunct1 [OF mask_nth_rank]) simp_all
  moreover have "take i (take j xs) = take i xs" "take i (take j bs) = take i bs"
    using assms by (simp_all add: min_def)
  ultimately show ?thesis by simp
qed

lemma idx_distinct:
  assumes "distinct (n_id nl)"
  shows "distinct (idx nl)"
  using assms mask_disjoint [of "n_id nl" "n_is_spk nl"]
  by (simp add: idx_def gpot_idx_def spike_idx_def mask_distinct)

lemma idx_set:
  assumes "length (n_is_spk nl) = length (n_id nl)"
  shows "set (idx nl) = set (n_id nl)"
  using mask_split_perm [OF assms] by (simp add: idx_def gpot_idx_def spike_idx_def)

lemma idx_length:
  assumes "length (n_is_spk nl) = length (n_id nl)"
  shows "length (idx nl) = length (n_id nl)"
  using mask_length_split [OF assms] by (simp add: idx_def gpot_idx_def spike_idx_def)

lemma order_dict_gpot:
  assumes len: "length (n_is_spk nl) = length (n_id nl)" and dist: "distinct (n_id nl)"
    and i: "i < length (n_id nl)" and g: "\<not> n_is_spk nl ! i"
  shows "order_dict nl (n_id nl ! i) = Some (rank_gpot nl i)"
    and "gpot_order_dict nl (n_id nl ! i) = Some (rank_gpot nl i)"
    and "rank_gpot nl i < length (gpot_idx nl)"
proof -
  have r: "rank_gpot nl i < length (gpot_idx nl) \<and> gpot_idx nl ! rank_gpot nl i = n_id nl ! i"
    unfolding rank_gpot_def gpot_idx_def
    using len i g by (intro mask_nth_rank) simp_all
  then show "rank_gpot nl i < length (gpot_idx nl)" by simp
  have "idx nl ! rank_gpot nl i = n_id nl ! i" "rank_gpot nl i < length (idx nl)"
    using r by (simp_all add: idx_def nth_append)
  then show "order_dict nl (n_id nl ! i) = Some (rank_gpot nl i)"
    using enumerate_dict_nth [OF idx_distinct [OF dist], of "rank_gpot nl i"]
    by (simp add: order_dict_def)
  have "distinct (gpot_idx nl)" using dist by (simp add: gpot_idx_def mask_distinct)
  then show "gpot_order_dict nl (n_id nl ! i) = Some (rank_gpot nl i)"
    using enumerate_dict_nth [of "gpot_idx nl" "rank_gpot nl i"] r
    by (simp add: gpot_order_dict_def)
qed

lemma order_dict_spike:
  assumes len: "length (n_is_spk nl) = length (n_id nl)" and dist: "distinct (n_id nl)"
    and i: "i < length (n_id nl)" and g: "n_is_spk nl ! i"
  shows "order_dict nl (n_id nl ! i) = Some (length (gpot_idx nl) + rank_spike nl i)"
    and "spike_order_dict nl (n_id nl ! i) = Some (rank_spike nl i)"
    and "rank_spike nl i < length (spike_idx nl)"
proof -
  have r: "rank_spike nl i < length (spike_idx nl) \<and> spike_idx nl ! rank_spike nl i = n_id nl ! i"
    unfolding rank_spike_def spike_idx_def
    using len i g by (intro mask_nth_rank) simp_all
  then show "rank_spike nl i < length (spike_idx nl)" by simp
  have "idx nl ! (length (gpot_idx nl) + rank_spike nl i) = n_id nl ! i"
       "length (gpot_idx nl) + rank_spike nl i < length (idx nl)"
    using r by (simp_all add: idx_def nth_append)
  then show "order_dict nl (n_id nl ! i) = Some (length (gpot_idx nl) + rank_spike nl i)"
    using enumerate_dict_nth [OF idx_distinct [OF dist], of "length (gpot_idx nl) + rank_spike nl i"]
    by (simp add: order_dict_def)
  have "distinct (spike_idx nl)" using dist by (simp add: spike_idx_def mask_distinct)
  then show "spike_order_dict nl (n_id nl ! i) = Some (rank_spike nl i)"
    using enumerate_dict_nth [of "spike_idx nl" "rank_spike nl i"] r
    by (simp add: spike_order_dict_def)
qed

lemma mask_set_nth:
  "k \<in> set (mask xs bs) \<Longrightarrow> \<exists>i. i < length xs \<and> i < length bs \<and> xs ! i = k \<and> bs ! i"
  unfolding mask_def by (auto simp: in_set_zip)

lemma int32_small [simp]: "- 2147483648 \<le> x \<Longrightarrow> x < 2147483648 \<Longrightarrow> int32 x = x"
  unfolding int32_def by (simp add: signed_take_bit_int_eq_self)

lemma two_models_gpot_idx: "gpot_idx two_models = [0, 2, 1]"
  by (simp add: gpot_idx_def n_id_def n_is_spk_def two_models_def mask_def)

lemma two_models_rev_gpot_idx: "gpot_idx (rev two_models) = [1, 0, 2]"
  by (simp add: gpot_idx_def n_id_def n_is_spk_def two_models_def mask_def)

lemma enumerate_dict_simps:
  "enumerate_dict [a, b, c] = [a \<mapsto> 0, b \<mapsto> 1, c \<mapsto> 2]"
  by (simp add: enumerate_dict_def dict_put_pair numeral_2_eq_2)

text \<open>
  Claim C1, as stated, asks each block of the packed layout to be ascending by original
  id. Two graded models \<open>A\<close> (ids 0 and 2) and \<open>B\<close> (id 1) refute it: the graded block
  is \<open>0, 2, 1\<close> when \<open>n_dict.items()\<close> lists \<open>A\<close> first and \<open>1, 0, 2\<close> when it lists \<open>B\<close>
  first; neuron 1 sits behind neuron 2.
\<close>

theorem C1_ascending_counterexample:
  "gpot_idx two_models = [0, 2, 1] \<and> spike_idx two_models = [] \<and>
   \<not> sorted (take (length (gpot_idx two_models)) (idx two_models)) \<and>
   order_dict two_models 1 = Some 2 \<and> order_dict two_models 2 = Some 1 \<and>
   \<not> sorted (take (length (gpot_idx (rev two_models))) (idx (rev two_models)))"
proof -
  have s: "spike_idx two_models = []" "spike_idx (rev two_models) = []"
    by (simp_all add: spike_idx_def n_id_def n_is_spk_def two_models_def mask_def)
  show ?thesis
    by (simp add: s two_models_gpot_idx two_models_rev_gpot_idx idx_def order_dict_def
        enumerate_dict_simps)
qed

text \<open>
  Claim C1, amended. For columns of equal length and pairwise distinct ids:
  \<open>order_dict\<close> is a bijection from the ids onto the positions \<open>0..N-1\<close> and has no other
  key, \<open>gpot_order_dict\<close> and \<open>spike_order_dict\<close> are bijections from the ids of their
  kind onto the positions of their block, the layout is the graded block followed by the
  spiking block (a graded neuron has the same position in \<open>order_dict\<close> and in
  \<open>gpot_order_dict\<close>, a spiking neuron's position is its \<open>spike_order_dict\<close> position plus
  the number of graded neurons), and within a block the neurons keep the order in which
  their ids occur in \<open>n_id\<close>, the concatenation of the models' id columns in
  \<open>n_dict.items()\<close> order.
\<close>

theorem C1_index_space:
  assumes len: "length (n_is_spk nl) = length (n_id nl)" and dist: "distinct (n_id nl)"
  shows "bij_betw (\<lambda>k. the (order_dict nl k)) (set (n_id nl)) {0..<length (n_id nl)} \<and>
         dom (order_dict nl) = set (n_id nl) \<and>
         bij_betw (\<lambda>k. the (gpot_order_dict nl k)) (set (gpot_idx nl)) {0..<length (gpot_idx nl)} \<and>
         bij_betw (\<lambda>k. the (spike_order_dict nl k)) (set (spike_idx nl)) {0..<length (spike_idx nl)} \<and>
         idx nl = gpot_idx nl @ spike_idx nl \<and>
         (\<forall>i<length (n_id nl). \<not> n_is_spk nl ! i \<longrightarrow>
            (\<exists>p<length (gpot_idx nl). order_dict nl (n_id nl ! i) = Some p \<and>
                gpot_order_dict nl (n_id nl ! i) = Some p)) \<and>
         (\<forall>i<length (n_id nl). n_is_spk nl ! i \<longrightarrow>
            (\<exists>p<length (spike_idx nl).
                order_dict nl (n_id nl ! i) = Some (length (gpot_idx nl) + p) \<and>
                spike_order_dict nl (n_id nl ! i) = Some p)) \<and>
         (\<forall>i j. i < j \<and> j < length (n_id nl) \<and> n_is_spk nl ! i = n_is_spk nl ! j \<longrightarrow>
            the (order_dict nl (n_id nl ! i)) < the (order_dict nl (n_id nl ! j)))"
proof (intro conjI allI impI)
  have di: "distinct (idx nl)" by (rule idx_distinct [OF dist])
  show "bij_betw (\<lambda>k. the (order_dict nl k)) (set (n_id nl)) {0..<length (n_id nl)}"
    using enumerate_dict_bij [OF di] by (simp add: order_dict_def idx_set [OF len] idx_length [OF len])
  show "dom (order_dict nl) = set (n_id nl)"
    using enumerate_dict_dom [OF di] by (simp add: order_dict_def idx_set [OF len])
  have dg: "distinct (gpot_idx nl)" and ds: "distinct (spike_idx nl)"
    using dist by (simp_all add: gpot_idx_def spike_idx_def mask_distinct)
  show "bij_betw (\<lambda>k. the (gpot_order_dict nl k)) (set (gpot_idx nl)) {0..<length (gpot_idx nl)}"
    using enumerate_dict_bij [OF dg] by (simp add: gpot_order_dict_def)
  show "bij_betw (\<lambda>k. the (spike_order_dict nl k)) (set (spike_idx nl)) {0..<length (spike_idx nl)}"
    using enumerate_dict_bij [OF ds] by (simp add: spike_order_dict_def)
  show "idx nl = gpot_idx nl @ spike_idx nl" by (simp add: idx_def)
next
  fix i assume i: "i < length (n_id nl)" and g: "\<not> n_is_spk nl ! i"
  show "\<exists>p<length (gpot_idx nl). order_dict nl (n_id nl ! i) = Some p \<and>
          gpot_order_dict nl (n_id nl ! i) = Some p"
    using order_dict_gpot [OF len dist i g] by blast
next
  fix i assume i: "i < length (n_id nl)" and g: "n_is_spk nl ! i"
  show "\<exists>p<length (spike_idx nl).
          order_dict nl (n_id nl ! i) = Some (length (gpot_idx nl) + p) \<and>
          spike_order_dict nl (n_id nl ! i) = Some p"
    using order_dict_spike [OF len dist i g] by blast
next
  fix i j
  assume a: "i < j \<and> j < length (n_id nl) \<and> n_is_spk nl ! i = n_is_spk nl ! j"
  then have ij: "i < j" and j: "j < length (n_id nl)" and i: "i < length (n_id nl)"
    and same: "n_is_spk nl ! i = n_is_spk nl ! j" by simp_all
  show "the (order_dict nl (n_id nl ! i)) < the (order_dict nl (n_id nl ! j))"
  proof (cases "n_is_spk nl ! i")
    case True
    then have tj: "n_is_spk nl ! j" using same by simp
    have "rank_spike nl i < rank_spike nl j"
      unfolding rank_spike_def using len ij j True by (intro mask_rank_mono) simp_all
    then show ?thesis
      using order_dict_spike(1) [OF len dist i True] order_dict_spike(1) [OF len dist j tj]
      by simp
  next
    case False
    then have fj: "\<not> n_is_spk nl ! j" using same by simp
    have "rank_gpot nl i < rank_gpot nl j"
      unfolding rank_gpot_def using len ij j i False by (intro mask_rank_mono) simp_all
    then show ?thesis
      using order_dict_gpot(1) [OF len dist i False] order_dict_gpot(1) [OF len dist j fj]
      by simp
  qed
qed

lemma mixed_models_n_id: "n_id mixed_models = [0, 2, 1, 4, 3]"
  by (simp add: n_id_def mixed_models_def)

lemma mixed_models_n_is_spk: "n_is_spk mixed_models = [False, False, True, True, False]"
  by (simp add: n_is_spk_def mixed_models_def)

theorem C1_index_space_witness:
  "length (n_is_spk mixed_models) = length (n_id mixed_models) \<and>
   distinct (n_id mixed_models) \<and>
   bij_betw (\<lambda>k. the (order_dict mixed_models k)) {0, 1, 2, 3, 4} {0..<5} \<and>
   idx mixed_models = [0, 2, 3, 1, 4] \<and>
   the (order_dict mixed_models 2) < the (order_dict mixed_models 3)"
proof -
  have h: "length (n_is_spk mixed_models) = length (n_id mixed_models)"
    "distinct (n_id mixed_models)"
    by (simp_all add: mixed_models_n_id mixed_models_n_is_spk)
  have st: "set (n_id mixed_models) = {0, 1, 2, 3, 4}" "length (n_id mixed_models) = 5"
    by (auto simp: mixed_models_n_id)
  have ix: "idx mixed_models = [0, 2, 3, 1, 4]"
    by (simp add: idx_def gpot_idx_def spike_idx_def mask_def mixed_models_n_id
        mixed_models_n_is_spk)
  from C1_index_space [OF h] have
    b: "bij_betw (\<lambda>k. the (order_dict mixed_models k)) (set (n_id mixed_models))
          {0..<length (n_id mixed_models)}"
    and m: "\<forall>i j. i < j \<and> j < length (n_id mixed_models) \<and>
              n_is_spk mixed_models ! i = n_is_spk mixed_models ! j \<longrightarrow>
              the (order_dict mixed_models (n_id mixed_models ! i))
                < the (order_dict mixed_models (n_id mixed_models ! j))"
    by blast+
  from m [rule_format, of 1 4] have "the (order_dict mixed_models 2) < the (order_dict mixed_models 3)"
    by (simp add: mixed_models_n_id mixed_models_n_is_spk)
  with h b ix show ?thesis by (simp add: st)
qed

lemma mapM_err_Inr:
  "mapM_err f xs = Inr ys \<Longrightarrow> list_all2 (\<lambda>x y. f x = Inr y) xs ys"
proof (induction xs arbitrary: ys)
  case Nil
  then show ?case by simp
next
  case (Cons x xs)
  then show ?case by (auto split: sum.splits)
qed









lemma bind_err_InrE:
  assumes "bind_err m f = Inr y"
  obtains x where "m = Inr x" "f x = Inr y"
  using assms by (cases m) (simp_all add: bind_err_def)

lemma bind_err_Inr_iff:
  "bind_err m f = Inr y \<longleftrightarrow> (\<exists>x. m = Inr x \<and> f x = Inr y)"
  by (cases m) (simp_all add: bind_err_def)

lemma take_inds_Inr:
  "take_inds v ord = Inr c \<Longrightarrow> c = map (\<lambda>i. v ! i) ord"
  by (simp add: take_inds_def split: if_splits)

lemma take_inds_opt_Inr:
  assumes "(case v of None \<Rightarrow> Inr None
            | Some r \<Rightarrow> bind_err (take_inds r ord) (\<lambda>r'. Inr (Some r'))) = Inr c"
  shows "c = map_option (\<lambda>r. map (\<lambda>i. r ! i) ord) v"
proof (cases v)
  case None
  with assms show ?thesis by simp
next
  case (Some r)
  with assms obtain r' where "take_inds r ord = Inr r'" "c = Some r'"
    by (auto elim!: bind_err_InrE)
  with Some show ?thesis by (simp add: take_inds_Inr)
qed

lemma permute_columns_Inr:
  assumes "permute_columns ord s pre post = Inr s'"
  shows "permuted_model ord pre post s s'"
proof -
  from assms obtain c_id c_class c_cond c_rev c_delay c_pre c_post where
    cols: "take_inds (sc_id s) ord = Inr c_id" "take_inds (sc_class s) ord = Inr c_class"
      "take_inds (sc_conductance s) ord = Inr c_cond"
      "(case sc_reverse s of None \<Rightarrow> Inr None
        | Some r \<Rightarrow> bind_err (take_inds r ord) (\<lambda>r'. Inr (Some r'))) = Inr c_rev"
      "(case sc_delay s of None \<Rightarrow> Inr None
        | Some d \<Rightarrow> bind_err (take_inds d ord) (\<lambda>d'. Inr (Some d'))) = Inr c_delay"
      "take_inds pre ord = Inr c_pre" "take_inds post ord = Inr c_post"
    and s': "s' = \<lparr> cs_id = c_id, cs_class = c_class, cs_conductance = c_cond,
                    cs_reverse = c_rev, cs_delay = c_delay, cs_pre = c_pre,
                    cs_post = c_post \<rparr>"
    unfolding permute_columns_def by (elim bind_err_InrE) simp
  show ?thesis
    unfolding permuted_model_def s'
    using cols(1,2,3,6,7) take_inds_opt_Inr [OF cols(4)] take_inds_opt_Inr [OF cols(5)]
    by (simp add: take_inds_Inr)
qed

lemma resolve_and_sort_Inr:
  assumes ok: "resolve_and_sort argsort nl nmax s = Inr s'"
  obtains cls rest pre neu where
    "sc_class s = cls # rest"
    "mapM_err (order_int (if cls \<le> 1 then spike_order_dict nl else gpot_order_dict nl)) (sc_pre s)
       = Inr pre"
    "s_neu_post (order_dict nl) (sc_post s) = Inr neu"
    "permuted_model (argsort (neu @ s_syn_post nmax (sc_post s))) pre
       (neu @ s_syn_post nmax (sc_post s)) s s'"
proof -
  from ok obtain cls rest where c: "sc_class s = cls # rest"
    by (cases "sc_class s") (simp_all add: resolve_and_sort_def)
  let ?d = "if cls \<le> 1 then spike_order_dict nl else gpot_order_dict nl"
  from ok c have "bind_err (mapM_err (order_int ?d) (sc_pre s)) (\<lambda>pre.
          bind_err (s_neu_post (order_dict nl) (sc_post s)) (\<lambda>neu.
            let post = neu @ s_syn_post nmax (sc_post s) in
            permute_columns (argsort post) s pre post)) = Inr s'"
    by (simp add: resolve_and_sort_def)
  then obtain pre where pre: "mapM_err (order_int ?d) (sc_pre s) = Inr pre"
    and r1: "bind_err (s_neu_post (order_dict nl) (sc_post s)) (\<lambda>neu.
            let post = neu @ s_syn_post nmax (sc_post s) in
            permute_columns (argsort post) s pre post) = Inr s'"
    by (rule bind_err_InrE)
  from r1 obtain neu where neu: "s_neu_post (order_dict nl) (sc_post s) = Inr neu"
    and r2: "(let post = neu @ s_syn_post nmax (sc_post s) in
            permute_columns (argsort post) s pre post) = Inr s'"
    by (rule bind_err_InrE)
  from r2 have "permuted_model (argsort (neu @ s_syn_post nmax (sc_post s))) pre
       (neu @ s_syn_post nmax (sc_post s)) s s'"
    by (simp add: Let_def permute_columns_Inr)
  with c pre neu show ?thesis by (rule that)
qed


lemma sorts_by_argsort_reversing: "sorts_by (argsort_reversing keys) keys"
  by (simp add: sorts_by_def argsort_reversing_def list_all_iff)











lemma LPU_init_Inr:
  assumes "LPU_init argsort rg ports dt nl sl in_file out_file dbg = Inr u"
  obtains nmax a where
    "nid_max nl = Inr nmax"
    "input_neuron_list_of nl = Inr (input_neuron_list u)"
    "compile_synapses argsort nl nmax synapse_locals_init sl = Inr (a, s_list u)"
    "delay_steps_of dt (l_gpot_delay_steps a) = Inr (lpu_gpot_delay_steps u)"
    "delay_steps_of dt (l_spike_delay_steps a) = Inr (lpu_spike_delay_steps u)"
    "total_synapses u = sum_list (map (\<lambda>(t, s). length (sc_id s)) sl)"
    "n_list u = nl" "lpu_dt u = dt"
proof -
  from assms have "\<exists>nmax a.
    nid_max nl = Inr nmax \<and>
    input_neuron_list_of nl = Inr (input_neuron_list u) \<and>
    compile_synapses argsort nl nmax synapse_locals_init sl = Inr (a, s_list u) \<and>
    delay_steps_of dt (l_gpot_delay_steps a) = Inr (lpu_gpot_delay_steps u) \<and>
    delay_steps_of dt (l_spike_delay_steps a) = Inr (lpu_spike_delay_steps u) \<and>
    total_synapses u = sum_list (map (\<lambda>(t, s). length (sc_id s)) sl) \<and>
    n_list u = nl \<and> lpu_dt u = dt"
    unfolding LPU_init_def Let_def by (auto simp: bind_err_Inr_iff)
  then show ?thesis using that by blast
qed




lemma mask_length:
  "length bs = length xs \<Longrightarrow> length (mask xs bs) = length (filter id bs)"
  unfolding mask_def
proof (induction xs arbitrary: bs)
  case Nil
  then show ?case by simp
next
  case (Cons x xs)
  then obtain b bs' where "bs = b # bs'" by (cases bs) auto
  with Cons show ?case by simp
qed

lemma order_array_length:
  assumes "order_array d ks = Inr ps"
  shows "length ps = length ks"
  using list_all2_lengthD [OF mapM_err_Inr] assms unfolding order_array_def by fastforce

lemma input_neuron_list_length:
  assumes "input_neuron_list_of nl = Inr ps" "length (n_has_in nl) = length (n_id nl)"
  shows "length ps = length (filter id (n_has_in nl))"
proof -
  have "length ps = length (in_id nl)"
    using assms(1) unfolding input_neuron_list_of_def by (rule order_array_length)
  also have "\<dots> = length (mask (n_id nl) (n_has_in nl))" by (simp add: in_id_def)
  also have "\<dots> = length (filter id (n_has_in nl))" using assms(2) by (rule mask_length)
  finally show ?thesis .
qed

lemma initialize_gpu_ds_synapse_state:
  assumes "initialize_gpu_ds s = Inr s'"
  shows "synapse_state s' = zeros (max (total_synapses s + length (input_neuron_list s)) 1) Float64"
  using assms unfolding initialize_gpu_ds_def Let_def
  by (auto split: if_splits)

text \<open>
  Claim C10. For a unit that \<open>LPU.__init__\<close> has constructed from columns of equal
  length, \<open>_initialize_gpu_ds\<close> allocates \<open>synapse_state\<close> as a zero array of 64-bit floats
  whose length is the larger of \<open>1\<close> and the number of synapses plus the number of
  neurons flagged \<open>extern\<close>; it is never empty.
\<close>

theorem C10_synapse_state_length:
  assumes init: "LPU_init argsort rg ports dt nl sl in_file out_file dbg = Inr u"
    and al: "length (n_has_in nl) = length (n_id nl)"
    and ds: "initialize_gpu_ds (blank_state m u) = Inr s"
  shows "synapse_state s
           = zeros (max (total_synapses u + length (input_neuron_list u)) 1) Float64 \<and>
         length (ga_data (synapse_state s))
           = max (sum_list (map (\<lambda>(t, c). length (sc_id c)) sl)
                  + length (filter id (n_has_in nl))) 1 \<and>
         0 < length (ga_data (synapse_state s))"
proof -
  from init obtain nmax a where
    il: "input_neuron_list_of nl = Inr (input_neuron_list u)"
    and ts: "total_synapses u = sum_list (map (\<lambda>(t, s). length (sc_id s)) sl)"
    by (rule LPU_init_Inr)
  have l: "length (input_neuron_list u) = length (filter id (n_has_in nl))"
    by (rule input_neuron_list_length [OF il al])
  have z: "synapse_state s
      = zeros (max (total_synapses (blank_state m u)
                    + length (input_neuron_list (blank_state m u))) 1) Float64"
    by (rule initialize_gpu_ds_synapse_state [OF ds])
  have b: "total_synapses (blank_state m u) = total_synapses u"
    "input_neuron_list (blank_state m u) = input_neuron_list u"
    by (simp_all add: blank_state_def lpu.defs)
  from z b ts l show ?thesis by (simp add: zeros_def)
qed

theorem C10_synapse_state_length_witness:
  "\<not> isl (LPU_init argsort_stable demo_registry no_ports (1 / 1000) mixed_models [] None None
            False) \<and>
   length (n_has_in mixed_models) = length (n_id mixed_models) \<and>
   \<not> isl (initialize_gpu_ds (blank_state ()
            (projr (LPU_init argsort_stable demo_registry no_ports (1 / 1000) mixed_models []
                      None None False)))) \<and>
   length (ga_data (synapse_state (projr (initialize_gpu_ds (blank_state ()
            (projr (LPU_init argsort_stable demo_registry no_ports (1 / 1000) mixed_models []
                      None None False))))))) = 1"
proof -
  let ?u = "LPU_init argsort_stable demo_registry no_ports (1 / 1000) mixed_models [] None None
            False"
  let ?s = "initialize_gpu_ds (blank_state () (projr ?u))"
  have u: "\<not> isl ?u" by code_simp
  then have eu: "?u = Inr (projr ?u)" by simp
  have s: "\<not> isl ?s" by code_simp
  then have es: "?s = Inr (projr ?s)" by simp
  have al: "length (n_has_in mixed_models) = length (n_id mixed_models)" by code_simp
  have f: "filter id (n_has_in mixed_models) = []" by code_simp
  have "length (ga_data (synapse_state (projr ?s)))
      = max (sum_list (map (\<lambda>(t, c). length (sc_id c)) ([] :: (string \<times> synapse_cols) list))
             + length (filter id (n_has_in mixed_models))) 1"
    by (rule conjunct1 [OF conjunct2 [OF C10_synapse_state_length [OF eu al es]]])
  then have "length (ga_data (synapse_state (projr ?s))) = 1" using f by simp
  with u s al show ?thesis by blast
qed

lemma blank_state_dtypes:
  assumes "initialize_gpu_ds (blank_state m u) = Inr s"
  shows "(case V s of None \<Rightarrow> True | Some v \<Rightarrow> ga_dtype v = ga_dtype (pm_gpot_data s)) \<and>
         (case spike_state s of None \<Rightarrow> True | Some v \<Rightarrow> ga_dtype v = ga_dtype (pm_spike_data s))"
  using assms unfolding initialize_gpu_ds_def Let_def
  by (auto simp: blank_state_def lpu.defs zeros_def split: if_splits)

text \<open>
  Claim C7, amended. The gather \<open>set_inds\<close> returns \<open>AssertionError\<close>, with no kernel
  run, exactly when the element types of its two arrays differ, and so does
  \<open>_read_LPU_input\<close> on such a pair. The scatter compares no element types: on every
  pair of arrays it runs its kernel. The pairs the class applies it to agree by
  construction: \<open>V\<close> and the graded port array are allocated as 64-bit floats,
  \<open>spike_state\<close> and the spike port array as 32-bit integers.
\<close>

theorem C7_gather_checks_dtype:
  "(ga_dtype src \<noteq> ga_dtype dest \<longrightarrow> set_inds src dest inds shift = Inl AssertionError) \<and>
   (ga_dtype src = ga_dtype dest \<longrightarrow>
      set_inds src dest inds shift
        = Inr (dest\<lparr> ga_data := set_inds_kernel (ga_data src) (ga_data dest) inds shift \<rparr>)) \<and>
   (ports_in_gpot_mem_ind s = Some k \<and> V s = Some v \<and> ga_dtype (pm_gpot_data s) \<noteq> ga_dtype v
      \<longrightarrow> read_LPU_input s = Inl AssertionError) \<and>
   (ports_in_gpot_mem_ind s = None \<and> ports_in_spk_mem_ind s = Some k \<and> spike_state s = Some v
      \<and> ga_dtype (pm_spike_data s) \<noteq> ga_dtype v
      \<longrightarrow> read_LPU_input s = Inl AssertionError) \<and>
   scatter_from (Some v) proj all_index projection_index N
     = Inr (proj\<lparr> ga_data :=
              extract_projection (ga_data v) (ga_data proj) all_index projection_index N \<rparr>) \<and>
   (initialize_gpu_ds (blank_state m u) = Inr s' \<longrightarrow>
      (case V s' of None \<Rightarrow> True | Some v \<Rightarrow> ga_dtype v = ga_dtype (pm_gpot_data s')) \<and>
      (case spike_state s' of None \<Rightarrow> True
       | Some v \<Rightarrow> ga_dtype v = ga_dtype (pm_spike_data s')))"
proof (intro conjI impI)
  show "ga_dtype src \<noteq> ga_dtype dest \<Longrightarrow> set_inds src dest inds shift = Inl AssertionError"
    by (simp add: set_inds_def)
  show "ga_dtype src = ga_dtype dest \<Longrightarrow>
      set_inds src dest inds shift
        = Inr (dest\<lparr> ga_data := set_inds_kernel (ga_data src) (ga_data dest) inds shift \<rparr>)"
    by (simp add: set_inds_def)
  show "ports_in_gpot_mem_ind s = Some k \<and> V s = Some v \<and> ga_dtype (pm_gpot_data s) \<noteq> ga_dtype v
      \<Longrightarrow> read_LPU_input s = Inl AssertionError"
    by (simp add: read_LPU_input_def gather_into_def set_inds_def bind_err_def)
  show "ports_in_gpot_mem_ind s = None \<and> ports_in_spk_mem_ind s = Some k \<and> spike_state s = Some v
      \<and> ga_dtype (pm_spike_data s) \<noteq> ga_dtype v
      \<Longrightarrow> read_LPU_input s = Inl AssertionError"
    by (simp add: read_LPU_input_def gather_into_def set_inds_def bind_err_def)
  show "scatter_from (Some v) proj all_index projection_index N
     = Inr (proj\<lparr> ga_data :=
              extract_projection (ga_data v) (ga_data proj) all_index projection_index N \<rparr>)"
    by (simp add: scatter_from_def)
  assume a: "initialize_gpu_ds (blank_state m u) = Inr s'"
  show "case V s' of None \<Rightarrow> True | Some v \<Rightarrow> ga_dtype v = ga_dtype (pm_gpot_data s')"
    using blank_state_dtypes [OF a] by simp
  show "case spike_state s' of None \<Rightarrow> True | Some v \<Rightarrow> ga_dtype v = ga_dtype (pm_spike_data s')"
    using blank_state_dtypes [OF a] by simp
qed

text \<open>
  Claim C7, as stated, lets the scatter fail as well when the element types differ. On a
  state array of 64-bit floats and a port array of 32-bit integers the gather stops with
  \<open>AssertionError\<close>, while \<open>_extract_output\<close> returns and has launched its kernel. (The
  kernel then stores floats into the integer array; the model does not follow the bytes.)
\<close>

theorem C7_scatter_counterexample:
  "V mismatched_state = Some \<lparr> ga_dtype = Float64, ga_data = [0, 0, 0] \<rparr> \<and>
   pm_gpot_data mismatched_state = \<lparr> ga_dtype = Int32, ga_data = [0] \<rparr> \<and>
   read_LPU_input mismatched_state = Inl AssertionError \<and>
   \<not> isl (extract_output mismatched_state) \<and>
   trace (projr (extract_output mismatched_state)) = [KernelLaunch ''extract_projection'']"
proof -
  have 1: "V mismatched_state = Some \<lparr> ga_dtype = Float64, ga_data = [0, 0, 0] \<rparr>"
    "pm_gpot_data mismatched_state = \<lparr> ga_dtype = Int32, ga_data = [0] \<rparr>"
    "ports_in_gpot_mem_ind mismatched_state = Some 0"
    by (simp_all add: mismatched_state_def)
  have 2: "read_LPU_input mismatched_state = Inl AssertionError"
    by (simp add: read_LPU_input_def gather_into_def set_inds_def bind_err_def 1)
  have 3: "\<not> isl (extract_output mismatched_state)"
    "trace (projr (extract_output mismatched_state)) = [KernelLaunch ''extract_projection'']"
    by code_simp+
  from 1 2 3 show ?thesis by simp
qed

theorem C7_gather_checks_dtype_witness:
  "ga_dtype (zeros 2 Float64) \<noteq> ga_dtype (zeros 3 Int32) \<and>
   set_inds (zeros 2 Float64) (zeros 3 Int32) [1] 0 = Inl AssertionError \<and>
   set_inds \<lparr> ga_dtype = Float64, ga_data = [5, 7] \<rparr> (zeros 3 Float64) [1] 2
     = Inr \<lparr> ga_dtype = Float64, ga_data = [0, 0, 7] \<rparr> \<and>
   read_LPU_input mismatched_state = Inl AssertionError"
proof -
  have d: "ga_dtype (zeros 2 Float64) \<noteq> ga_dtype (zeros 3 Int32)"
    "ga_dtype \<lparr> ga_dtype = Float64, ga_data = [5, 7] \<rparr> = ga_dtype (zeros 3 Float64)"
    by (simp_all add: zeros_def)
  have k: "(zeros 3 Float64)\<lparr> ga_data := set_inds_kernel
              (ga_data \<lparr> ga_dtype = Float64, ga_data = [5, 7] \<rparr>) (ga_data (zeros 3 Float64))
              [1] 2 \<rparr> = \<lparr> ga_dtype = Float64, ga_data = [0, 0, 7] \<rparr>"
    by code_simp
  have m: "ports_in_gpot_mem_ind mismatched_state = Some 0 \<and>
      V mismatched_state = Some \<lparr> ga_dtype = Float64, ga_data = [0, 0, 0] \<rparr> \<and>
      ga_dtype (pm_gpot_data mismatched_state)
        \<noteq> ga_dtype \<lparr> ga_dtype = Float64, ga_data = [0, 0, 0] \<rparr>"
    by (simp add: mismatched_state_def)
  have 1: "set_inds (zeros 2 Float64) (zeros 3 Int32) [1] 0 = Inl AssertionError"
    by (rule C7_gather_checks_dtype [THEN conjunct1, rule_format, OF d(1)])
  have 2: "set_inds \<lparr> ga_dtype = Float64, ga_data = [5, 7] \<rparr> (zeros 3 Float64) [1] 2
     = Inr \<lparr> ga_dtype = Float64, ga_data = [0, 0, 7] \<rparr>"
    using C7_gather_checks_dtype [THEN conjunct2, THEN conjunct1, rule_format, OF d(2), of "[1]" 2]
    by (simp only: k)
  have 3: "read_LPU_input mismatched_state = Inl AssertionError"
    by (rule C7_gather_checks_dtype [THEN conjunct2, THEN conjunct2, THEN conjunct1,
          rule_format, OF m])
  from d(1) 1 2 3 show ?thesis by blast
qed







lemma on_device_host [simp]:
  "lpu.truncate (on_device f s) = lpu.truncate s"
  "trace (on_device f s) = trace s"
  "first_step (on_device f s) = first_step s"
  "neurons (on_device f s) = neurons s"
  "synapses (on_device f s) = synapses s"
  "buffer (on_device f s) = buffer s"
  by (simp_all add: on_device_def put_device_def lpu.defs)

lemma log_event_host [simp]:
  "lpu.truncate (log_event e s) = lpu.truncate s"
  "trace (log_event e s) = trace s @ [e]"
  "first_step (log_event e s) = first_step s"
  "neurons (log_event e s) = neurons s"
  "synapses (log_event e s) = synapses s"
  "buffer (log_event e s) = buffer s"
  "V (log_event e s) = V s"
  "spike_state (log_event e s) = spike_state s"
  "synapse_state (log_event e s) = synapse_state s"
  "model_mem (log_event e s) = model_mem s"
  by (simp_all add: log_event_def lpu.defs)

lemma instantiate_neuron_host:
  assumes "instantiate_neuron sem i t n s = Inr (obj, s')"
  shows "lpu.truncate s' = lpu.truncate s \<and>
         filter is_refill (trace s') = filter is_refill (trace s)"
  using assms unfolding instantiate_neuron_def
  by (auto split: option.splits list.splits if_splits)

lemma instantiate_neurons_host:
  "instantiate_neurons sem xs s = Inr (ns, s') \<Longrightarrow>
   lpu.truncate s' = lpu.truncate s \<and>
   filter is_refill (trace s') = filter is_refill (trace s)"
proof (induction xs arbitrary: s ns s')
  case Nil
  then show ?case by simp
next
  case (Cons x xs)
  obtain i t n where x: "x = (i, t, n)" by (cases x)
  show ?case
  proof (cases "t \<noteq> PORT_IN_GPOT \<and> t \<noteq> PORT_IN_SPK")
    case True
    with Cons.prems x obtain obj s1 objs where
      a: "instantiate_neuron sem i t n s = Inr (obj, s1)"
      and b: "instantiate_neurons sem xs s1 = Inr (objs, s')"
      by (auto simp: bind_err_Inr_iff)
    from instantiate_neuron_host [OF a] Cons.IH [OF b] show ?thesis by simp
  next
    case False
    with Cons.prems x have "instantiate_neurons sem xs s = Inr (ns, s')" by auto
    then show ?thesis by (rule Cons.IH)
  qed
qed

lemma instantiate_synapse_host:
  assumes "instantiate_synapse sem i t s = Inr (obj, s')"
  shows "lpu.truncate s' = lpu.truncate s \<and>
         filter is_refill (trace s') = filter is_refill (trace s)"
  using assms unfolding instantiate_synapse_def
  by (auto split: option.splits)

lemma instantiate_synapses_host:
  "instantiate_synapses sem xs s = Inr (ns, s') \<Longrightarrow>
   lpu.truncate s' = lpu.truncate s \<and>
   filter is_refill (trace s') = filter is_refill (trace s)"
proof (induction xs arbitrary: s ns s')
  case Nil
  then show ?case by simp
next
  case (Cons x xs)
  obtain i t n where x: "x = (i, t, n)" by (cases x)
  show ?case
  proof (cases "t \<noteq> ''pass''")
    case True
    with Cons.prems x obtain obj s1 objs where
      a: "instantiate_synapse sem i t s = Inr (obj, s1)"
      and b: "instantiate_synapses sem xs s1 = Inr (objs, s')"
      by (auto simp: bind_err_Inr_iff)
    from instantiate_synapse_host [OF a] Cons.IH [OF b] show ?thesis by simp
  next
    case False
    with Cons.prems x have "instantiate_synapses sem xs s = Inr (ns, s')" by auto
    then show ?thesis by (rule Cons.IH)
  qed
qed

lemma truncate_fields:
  assumes "lpu.truncate s' = lpu.truncate s"
  shows "one_time_import s' = one_time_import s" "input_file s' = input_file s"
    "input_eof s' = input_eof s"
proof -
  have "one_time_import (lpu.truncate s') = one_time_import (lpu.truncate s)"
    "input_file (lpu.truncate s') = input_file (lpu.truncate s)"
    "input_eof (lpu.truncate s') = input_eof (lpu.truncate s)"
    using assms by simp_all
  then show "one_time_import s' = one_time_import s" "input_file s' = input_file s"
    "input_eof s' = input_eof s"
    by (simp_all add: lpu.defs)
qed

lemma blank_state_host:
  "lpu.truncate (blank_state m u) = u" "trace (blank_state m u) = []"
  by (simp_all add: blank_state_def lpu.defs)

lemma initialize_gpu_ds_host:
  assumes "initialize_gpu_ds s = Inr s'"
  shows "lpu.truncate s' = lpu.truncate s \<and> trace s' = trace s"
proof -
  let ?s1 = "s\<lparr> synapse_state := zeros (max (total_synapses s + length (input_neuron_list s)) 1)
                                        Float64,
                  V := (if total_num_gpot_neurons s > 0
                        then Some (zeros (total_num_gpot_neurons s) Float64) else None),
                  spike_state := (if total_num_spike_neurons s > 0
                                  then Some (zeros (total_num_spike_neurons s) Int32)
                                  else spike_state s) \<rparr>"
  from assms have "s' = ?s1\<lparr> inds_gpot := (if ports_in_gpot_mem_ind ?s1 \<noteq> None
                                       then sel_in_gpot_ids ?s1 else inds_gpot ?s1),
                       inds_spike := (if ports_in_spk_mem_ind ?s1 \<noteq> None
                                        then sel_in_spk_ids ?s1 else inds_spike ?s1) \<rparr>"
    unfolding initialize_gpu_ds_def Let_def by (simp split: if_splits)
  then show ?thesis by (simp add: lpu.defs)
qed

lemma LPU_init_feeder_fields:
  assumes "LPU_init argsort rg ports dt nl sl (Some name) out_file dbg = Inr u"
  shows "one_time_import u = 10" "input_file u = Some name" "\<not> input_eof u"
proof -
  from assms have "one_time_import u = 10 \<and> input_file u = Some name \<and> \<not> input_eof u"
    unfolding LPU_init_def Let_def by (auto simp: bind_err_Inr_iff)
  then show "one_time_import u = 10" "input_file u = Some name" "\<not> input_eof u"
    by simp_all
qed

lemma init_buffer_and_files_feeder:
  assumes "one_time_import s = 10" "input_file s = Some name" "\<not> input_eof s"
    "filter is_refill (trace s) = []"
  shows "feeder_at file [] (h5_slice file 0 10) 10 0
           ((init_buffer_and_files file ns ss s)\<lparr> first_step := True \<rparr>)"
  using assms unfolding init_buffer_and_files_def Let_def feeder_at_def by simp

lemma pre_run_feeder:
  assumes init: "LPU_init argsort rg ports dt nl sl (Some name) out_file dbg = Inr u"
    and pre: "pre_run sem file m u = Inr s"
  shows "feeder_at file [] (h5_slice file 0 10) 10 0 s"
proof -
  note u = LPU_init_feeder_fields [OF init]
  from pre obtain s1 s2 where
    g: "initialize_gpu_ds (blank_state m u) = Inr s1"
    and o: "init_objects sem file s1 = Inr s2" and s: "s = s2\<lparr> first_step := True \<rparr>"
    unfolding pre_run_def by (auto simp: bind_err_Inr_iff)
  from initialize_gpu_ds_host [OF g]
  have s1: "lpu.truncate s1 = u" "trace s1 = []" by (simp_all add: blank_state_host)
  from o obtain ns sa ss sb where
    a: "instantiate_neurons sem (enumerate 0 (n_list s1)) s1 = Inr (ns, sa)"
    and b: "instantiate_synapses sem (enumerate 0 (s_list sa)) sa = Inr (ss, sb)"
    and s2: "s2 = init_buffer_and_files file ns ss sb"
    unfolding init_objects_def by (auto simp: bind_err_Inr_iff)
  from instantiate_neurons_host [OF a] instantiate_synapses_host [OF b] s1
  have t: "lpu.truncate sb = u" "filter is_refill (trace sb) = []" by simp_all
  have "lpu.truncate sb = lpu.truncate (blank_state m u)" using t(1) by (simp add: blank_state_host)
  from truncate_fields [OF this] u
  have f: "one_time_import sb = 10" "input_file sb = Some name" "\<not> input_eof sb"
    by (simp_all add: blank_state_def lpu.defs)
  show ?thesis unfolding s s2 using f t(2) by (rule init_buffer_and_files_feeder)
qed

text \<open>
  Claim C9 on the code. The model name \<open>Bogus\<close> is neither a registered class nor an
  integer. Construction and \<open>pre_run\<close> do not abort and the error is logged, but the
  \<open>None\<close> that \<open>_instantiate_neuron\<close> returns is kept in \<open>self.neurons\<close>, between the two
  objects that were built. The first \<open>run_step\<close> returns (it evaluates no model); the
  second one raises \<open>AttributeError\<close> in the loop over \<open>self.neurons\<close>.
\<close>

theorem C9_unresolved_model_stops_stepping:
  "resolve_class (neuron_names demo_registry) ''Bogus'' = None \<and>
   \<not> isl bogus_unit \<and> \<not> isl bogus_state \<and>
   neurons (projr bogus_state) = [Some (NeuronObj 0 0), None, Some (NeuronObj 2 2)] \<and>
   trace (projr bogus_state) = [LogInfo ''Error instantiating neurons of model Bogus''] \<and>
   \<not> isl (run_step idle_sem (projr bogus_state)) \<and>
   map_sum id (\<lambda>s. ())
     (run_step idle_sem (projr (run_step idle_sem (projr bogus_state)))) = Inl AttributeError"
  by code_simp

lemma read_LPU_input_view:
  assumes "read_LPU_input s = Inr s1"
  shows "host_view s1 = host_view s"
proof -
  from assms obtain sa where
    a: "(case ports_in_gpot_mem_ind s of
                 None \<Rightarrow> Inr s
               | Some k \<Rightarrow>
                   bind_err (gather_into (pm_gpot_data s) (V s) (inds_gpot s)
                               (read_at (idx_start_gpot s) k)) (\<lambda>v.
                     Inr (log_event (KernelLaunch ''set_inds'') (s\<lparr> V := v \<rparr>)))) = Inr sa"
    and b: "(case ports_in_spk_mem_ind sa of
       None \<Rightarrow> Inr sa
     | Some k \<Rightarrow>
         bind_err (gather_into (pm_spike_data sa) (spike_state sa) (inds_spike sa)
                     (read_at (idx_start_spike sa) k)) (\<lambda>v.
           Inr (log_event (KernelLaunch ''set_inds'') (sa\<lparr> spike_state := v \<rparr>)))) = Inr s1"
    unfolding read_LPU_input_def by (auto simp: bind_err_Inr_iff)
  from a have "host_view sa = host_view s"
    by (auto simp: host_view_def log_event_def bind_err_Inr_iff split: option.splits)
  moreover from b have "host_view s1 = host_view sa"
    by (auto simp: host_view_def log_event_def bind_err_Inr_iff split: option.splits)
  ultimately show ?thesis by simp
qed

lemma read_LPU_input_arrays:
  assumes "read_LPU_input s = Inr s1"
  shows "(case ports_in_gpot_mem_ind s of
            None \<Rightarrow> V s1 = V s
          | Some k \<Rightarrow> gather_into (pm_gpot_data s) (V s) (inds_gpot s)
                        (read_at (idx_start_gpot s) k) = Inr (V s1)) \<and>
         (case ports_in_spk_mem_ind s of
            None \<Rightarrow> spike_state s1 = spike_state s
          | Some k \<Rightarrow> gather_into (pm_spike_data s) (spike_state s) (inds_spike s)
                        (read_at (idx_start_spike s) k) = Inr (spike_state s1))"
proof -
  from assms obtain sa where
    a: "(case ports_in_gpot_mem_ind s of
                 None \<Rightarrow> Inr s
               | Some k \<Rightarrow>
                   bind_err (gather_into (pm_gpot_data s) (V s) (inds_gpot s)
                               (read_at (idx_start_gpot s) k)) (\<lambda>v.
                     Inr (log_event (KernelLaunch ''set_inds'') (s\<lparr> V := v \<rparr>)))) = Inr sa"
    and b: "(case ports_in_spk_mem_ind sa of
       None \<Rightarrow> Inr sa
     | Some k \<Rightarrow>
         bind_err (gather_into (pm_spike_data sa) (spike_state sa) (inds_spike sa)
                     (read_at (idx_start_spike sa) k)) (\<lambda>v.
           Inr (log_event (KernelLaunch ''set_inds'') (sa\<lparr> spike_state := v \<rparr>)))) = Inr s1"
    unfolding read_LPU_input_def by (auto simp: bind_err_Inr_iff)
  from a have sa: "ports_in_spk_mem_ind sa = ports_in_spk_mem_ind s"
    "pm_spike_data sa = pm_spike_data s" "spike_state sa = spike_state s"
    "inds_spike sa = inds_spike s" "idx_start_spike sa = idx_start_spike s"
    "(case ports_in_gpot_mem_ind s of
            None \<Rightarrow> V sa = V s
          | Some k \<Rightarrow> gather_into (pm_gpot_data s) (V s) (inds_gpot s)
                        (read_at (idx_start_gpot s) k) = Inr (V sa))"
    by (auto simp: log_event_def bind_err_Inr_iff split: option.splits)
  from b have "V s1 = V sa"
    "(case ports_in_spk_mem_ind sa of
            None \<Rightarrow> spike_state s1 = spike_state sa
          | Some k \<Rightarrow> gather_into (pm_spike_data sa) (spike_state sa) (inds_spike sa)
                        (read_at (idx_start_spike sa) k) = Inr (spike_state s1))"
    by (auto simp: log_event_def bind_err_Inr_iff split: option.splits)
  with sa show ?thesis by (simp split: option.splits)
qed

lemma read_external_input_view:
  "host_view (read_external_input s) = host_view s"
  "V (read_external_input s) = V s"
  "spike_state (read_external_input s) = spike_state s"
  by (simp_all add: host_view_def read_external_input_def refill_window_def copy_frame_def
      log_event_def Let_def)

lemma debug_append_view:
  "host_view (debug_append s) = host_view s"
  "V (debug_append s) = V s"
  "spike_state (debug_append s) = spike_state s"
  by (simp_all add: host_view_def debug_append_def Let_def)

lemma extract_output_view:
  assumes "extract_output s = Inr s1"
  shows "host_view s1 = host_view s \<and> V s1 = V s \<and> spike_state s1 = spike_state s"
proof -
  from assms obtain sa where
    a: "(if num_public_gpot s > 0 then
                 bind_err (scatter_from (V s) (pm_gpot_data s) (out_ports_ids_gpot s)
                             (sel_out_gpot_ids s) (num_public_gpot s)) (\<lambda>p.
                   Inr (log_event (KernelLaunch ''extract_projection'')
                          (s\<lparr> pm_gpot_data := p \<rparr>)))
               else Inr s) = Inr sa"
    and b: "(if num_public_spike sa > 0 then
       bind_err (scatter_from (spike_state sa) (pm_spike_data sa) (out_ports_ids_spk sa)
                   (sel_out_spk_ids sa) (num_public_spike sa)) (\<lambda>p.
         Inr (log_event (KernelLaunch ''extract_projection'')
                (sa\<lparr> pm_spike_data := p \<rparr>)))
     else Inr sa) = Inr s1"
    unfolding extract_output_def by (auto simp: bind_err_Inr_iff)
  from a have "host_view sa = host_view s \<and> V sa = V s \<and> spike_state sa = spike_state s"
    by (auto simp: host_view_def log_event_def bind_err_Inr_iff split: if_splits)
  moreover from b have "host_view s1 = host_view sa \<and> V s1 = V sa \<and> spike_state s1 = spike_state sa"
    by (auto simp: host_view_def log_event_def bind_err_Inr_iff split: if_splits)
  ultimately show ?thesis by simp
qed

lemma write_output_view:
  assumes "write_output s = Inr s1"
  shows "host_view s1 = host_view s \<and> V s1 = V s \<and> spike_state s1 = spike_state s"
proof -
  from assms obtain sa where
    a: "(if total_num_gpot_neurons s > 0 then
                 (case V s of
                    None \<Rightarrow> Inl AttributeError
                  | Some v \<Rightarrow> bind_err (take_inds (ga_data v) (gpot_order_l s)) (\<lambda>row.
                      Inr (s\<lparr> output_gpot_file := output_gpot_file s @ [row] \<rparr>)))
               else Inr s) = Inr sa"
    and b: "(if total_num_spike_neurons sa > 0 then
       (case spike_state sa of
          None \<Rightarrow> Inl AttributeError
        | Some v \<Rightarrow> bind_err (take_inds (ga_data v) (spike_order_l sa)) (\<lambda>row.
            Inr (sa\<lparr> output_spike_file := output_spike_file sa @ [row] \<rparr>)))
     else Inr sa) = Inr s1"
    unfolding write_output_def by (auto simp: bind_err_Inr_iff)
  from a have "host_view sa = host_view s \<and> V sa = V s \<and> spike_state sa = spike_state s"
    by (auto simp: host_view_def bind_err_Inr_iff split: if_splits option.splits)
  moreover from b have "host_view s1 = host_view sa \<and> V s1 = V sa \<and> spike_state s1 = spike_state sa"
    by (auto simp: host_view_def bind_err_Inr_iff split: if_splits option.splits)
  ultimately show ?thesis by simp
qed

lemma on_device_reg [simp]: "reg (on_device f s) = reg s"
  by (simp add: on_device_def put_device_def)

lemma log_event_reg [simp]: "reg (log_event e s) = reg s"
  by (simp add: log_event_def)

lemma neuron_events_Suc:
  "neuron_events k (Suc n) = [NeuronUpdateI k, NeuronEval k] @ neuron_events (Suc k) n"
  by (simp add: neuron_events_def upt_conv_Cons)

lemma update_neurons_Inr:
  "update_neurons sem k ns s = Inr s' \<Longrightarrow>
   None \<notin> set ns \<and> trace s' = trace s @ neuron_events k (length ns) \<and>
   first_step s' = first_step s \<and> neurons s' = neurons s \<and> synapses s' = synapses s \<and>
   buffer s' = buffer s \<and> reg s' = reg s"
proof (induction sem k ns s rule: update_neurons.induct)
  case (1 sem k s)
  then show ?case by (simp add: neuron_events_def)
next
  case (2 sem k rest s)
  then show ?case by simp
next
  case (3 sem k c i rest s)
  let ?s1 = "log_event (NeuronEval k) (on_device (neuron_eval sem c i)
         (log_event (NeuronUpdateI k) (on_device (neuron_update_I sem c i) s)))"
  from "3.prems" have "update_neurons sem (Suc k) rest ?s1 = Inr s'" by simp
  from "3.IH" [OF this] show ?case by (simp add: neuron_events_Suc)
qed

lemma update_neurons_None:
  "None \<in> set ns \<Longrightarrow> update_neurons sem k ns s = Inl AttributeError"
  by (induction sem k ns s rule: update_neurons.induct) auto

lemma update_synapses_Inr:
  "update_synapses sem k ss s = Inr s' \<Longrightarrow>
   None \<notin> set ss \<and> trace s' = trace s @ synapse_events (reg s) k ss \<and>
   first_step s' = first_step s \<and> neurons s' = neurons s \<and> synapses s' = synapses s \<and>
   buffer s' = buffer s \<and> reg s' = reg s"
proof (induction sem k ss s rule: update_synapses.induct)
  case (1 sem k s)
  then show ?case by simp
next
  case (2 sem k rest s)
  then show ?case by simp
next
  case (3 sem k c i rest s)
  let ?s1 = "if has_update_I (reg s) c
                then log_event (SynapseUpdateI k) (on_device (synapse_update_I sem c i) s)
                else s"
  let ?s2 = "log_event (SynapseUpdateState k)
              (on_device (synapse_update_state sem c i (buffer ?s1)) ?s1)"
  from "3.prems" have u: "update_synapses sem (Suc k) rest ?s2 = Inr s'"
    by (simp add: Let_def)
  have "None \<notin> set rest \<and> trace s' = trace ?s2 @ synapse_events (reg ?s2) (Suc k) rest \<and>
   first_step s' = first_step ?s2 \<and> neurons s' = neurons ?s2 \<and> synapses s' = synapses ?s2 \<and>
   buffer s' = buffer ?s2 \<and> reg s' = reg ?s2"
    using "3.IH" [OF refl u] by simp
  then show ?case by simp
qed

lemma step_same_cursors:
  "same_cursors b b' \<Longrightarrow> same_cursors (step b) (step b')"
  by (simp add: same_cursors_def step_def step_gpot_def step_spike_def Let_def)

lemma update_buffer_Inr:
  assumes "update_buffer s = Inr s'"
  shows "trace s' = trace s @ [UpdateBuffer] \<and> first_step s' = first_step s \<and>
         neurons s' = neurons s \<and> synapses s' = synapses s \<and> reg s' = reg s \<and>
         same_cursors (buffer s') (buffer s)"
proof -
  from assms obtain sa sb where
    a: "(if total_num_gpot_neurons s > 0 then
                 (case V s of
                    None \<Rightarrow> Inl AttributeError
                  | Some v \<Rightarrow>
                      Inr (s\<lparr> buffer := (buffer s)\<lparr> gpot_buffer :=
                              (gpot_buffer (buffer s))[nat (gpot_current (buffer s)) :=
                                 take (total_num_gpot_neurons s) (ga_data v)] \<rparr> \<rparr>))
               else Inr s) = Inr sa"
    and b: "(if total_num_spike_neurons sa > 0 then
                 (case spike_state sa of
                    None \<Rightarrow> Inl AttributeError
                  | Some v \<Rightarrow>
                      Inr (sa\<lparr> buffer := (buffer sa)\<lparr> spike_buffer :=
                              (spike_buffer (buffer sa))[nat (spike_current (buffer sa)) :=
                                 take (total_num_spike_neurons sa) (ga_data v)] \<rparr> \<rparr>))
               else Inr sa) = Inr sb"
    and c: "s' = log_event UpdateBuffer sb"
    unfolding update_buffer_def by (auto simp: bind_err_Inr_iff)
  from a have "trace sa = trace s \<and> first_step sa = first_step s \<and>
         neurons sa = neurons s \<and> synapses sa = synapses s \<and> reg sa = reg s \<and>
         same_cursors (buffer sa) (buffer s)"
    by (auto simp: same_cursors_def split: if_splits option.splits)
  moreover from b have "trace sb = trace sa \<and> first_step sb = first_step sa \<and>
         neurons sb = neurons sa \<and> synapses sb = synapses sa \<and> reg sb = reg sa \<and>
         same_cursors (buffer sb) (buffer sa)"
    by (auto simp: same_cursors_def split: if_splits option.splits)
  ultimately show ?thesis using c by (simp add: same_cursors_def)
qed

lemma evaluate_models_first:
  assumes "first_step s"
  shows "evaluate_models sem s = Inr (s\<lparr> first_step := False \<rparr>)"
  using assms by (simp add: evaluate_models_def)

lemma evaluate_models_later:
  assumes "\<not> first_step s" "evaluate_models sem s = Inr s'"
  shows "None \<notin> set (neurons s) \<and> None \<notin> set (synapses s) \<and>
         trace s' = trace s @ neuron_events 0 (length (neurons s)) @ [UpdateBuffer]
                      @ synapse_events (reg s) 0 (synapses s) @ [BufferStep] \<and>
         \<not> first_step s' \<and> neurons s' = neurons s \<and> synapses s' = synapses s \<and>
         same_cursors (buffer s') (step (buffer s))"
proof -
  from assms obtain s1 s2 s3 where
    n: "update_neurons sem 0 (neurons s) s = Inr s1"
    and b: "update_buffer s1 = Inr s2"
    and y: "update_synapses sem 0 (synapses s2) s2 = Inr s3"
    and e: "s' = log_event BufferStep (s3\<lparr> buffer := step (buffer s3) \<rparr>)"
    unfolding evaluate_models_def by (auto simp: bind_err_Inr_iff)
  note n' = update_neurons_Inr [OF n] and b' = update_buffer_Inr [OF b]
    and y' = update_synapses_Inr [OF y]
  have "same_cursors (buffer s3) (buffer s)" using n' b' y' by simp
  then have cur: "same_cursors (step (buffer s3)) (step (buffer s))"
    by (rule step_same_cursors)
  show ?thesis using n' b' y' assms(1) cur unfolding e by (simp add: log_event_def)
qed

lemma fold_update_outside:
  "\<forall>i\<in>set is. i + shift \<noteq> j \<Longrightarrow>
   fold (\<lambda>i d. d[i + shift := f i]) is d ! j = d ! j \<and>
   length (fold (\<lambda>i d. d[i + shift := f i]) is d) = length d"
proof (induction "is" arbitrary: d)
  case Nil
  then show ?case by simp
next
  case (Cons i "is")
  then have "fold (\<lambda>i d. d[i + shift := f i]) is (d[i + shift := f i]) ! j = d[i + shift := f i] ! j \<and>
             length (fold (\<lambda>i d. d[i + shift := f i]) is (d[i + shift := f i]))
               = length (d[i + shift := f i])"
    by simp
  with Cons.prems show ?case by simp
qed

lemma fold_update_length:
  "length (fold (\<lambda>i d. d[i + shift := f i]) is d) = length d"
  by (induction "is" arbitrary: d) simp_all

lemma set_inds_kernel_length [simp]:
  "length (set_inds_kernel src dest inds shift) = length dest"
  unfolding set_inds_kernel_def by (rule fold_update_length)

lemma set_inds_kernel_outside:
  assumes "j < shift \<or> shift + length inds \<le> j"
  shows "set_inds_kernel src dest inds shift ! j = dest ! j"
proof -
  have "\<forall>i\<in>set [0..<length inds]. i + shift \<noteq> j" using assms by auto
  from fold_update_outside [where f = "\<lambda>i. read_at src (inds ! i)", OF this]
  show ?thesis unfolding set_inds_kernel_def by simp
qed

lemma gather_into_outside:
  assumes "gather_into src (Some v) inds shift = Inr r"
  shows "\<exists>v'. r = Some v' \<and> ga_dtype v' = ga_dtype v \<and>
           length (ga_data v') = length (ga_data v) \<and>
           (\<forall>j. j < shift \<or> shift + length inds \<le> j \<longrightarrow> ga_data v' ! j = ga_data v ! j)"
proof -
  from assms have r: "r = Some (v\<lparr> ga_data := set_inds_kernel (ga_data src) (ga_data v) inds shift \<rparr>)"
    by (auto simp: gather_into_def set_inds_def bind_err_Inr_iff split: if_splits)
  show ?thesis unfolding r by (simp add: set_inds_kernel_outside)
qed

lemma run_step_Inr:
  assumes "run_step sem s = Inr s'"
  obtains s1 s2 s3 where
    "read_LPU_input s = Inr s1"
    "evaluate_models sem (if input_file s1 \<noteq> None then read_external_input s1 else s1) = Inr s2"
    "extract_output (debug_append s2) = Inr s3"
    "if lpu_output s3 then write_output s3 = Inr s' else s' = s3"
proof -
  from assms obtain s1 s2 s3 where
    a: "read_LPU_input s = Inr s1"
    and b: "evaluate_models sem (if input_file s1 \<noteq> None then read_external_input s1 else s1)
        = Inr s2"
    and c: "extract_output (debug_append s2) = Inr s3"
    and d: "(if lpu_output s3 then write_output s3 else Inr s3) = Inr s'"
    unfolding run_step_def bind_err_Inr_iff by blast
  from d have "if lpu_output s3 then write_output s3 = Inr s' else s' = s3"
    by (cases "lpu_output s3") auto
  with a b c show ?thesis by (rule that)
qed

lemma run_step_tail_view:
  assumes "extract_output (debug_append s2) = Inr s3"
    "if lpu_output s3 then write_output s3 = Inr s' else s' = s3"
  shows "host_view s' = host_view s2 \<and> V s' = V s2 \<and> spike_state s' = spike_state s2"
proof -
  from extract_output_view [OF assms(1)]
  have a: "host_view s3 = host_view s2 \<and> V s3 = V s2 \<and> spike_state s3 = spike_state s2"
    by (simp add: debug_append_view)
  show ?thesis
  proof (cases "lpu_output s3")
    case True
    with assms(2) have "write_output s3 = Inr s'" by simp
    from write_output_view [OF this] a show ?thesis by simp
  next
    case False
    with assms(2) a show ?thesis by simp
  qed
qed

lemma run_step_head_view:
  assumes "read_LPU_input s = Inr s1"
  shows "host_view (if input_file s1 \<noteq> None then read_external_input s1 else s1) = host_view s"
    "V (if input_file s1 \<noteq> None then read_external_input s1 else s1) = V s1"
    "spike_state (if input_file s1 \<noteq> None then read_external_input s1 else s1) = spike_state s1"
  using read_LPU_input_view [OF assms] by (simp_all add: read_external_input_view)

lemma filter_neuron_events [simp]:
  "filter is_model_event (neuron_events k n) = neuron_events k n"
  by (induction n arbitrary: k) (simp_all add: neuron_events_Suc, simp add: neuron_events_def)

lemma filter_synapse_events [simp]:
  "filter is_model_event (synapse_events rg k ss) = synapse_events rg k ss"
  by (induction rg k ss rule: synapse_events.induct) simp_all

lemma count_eval_neuron_events:
  "filter (\<lambda>e. e = NeuronEval j) (neuron_events k n)
     = (if k \<le> j \<and> j < k + n then [NeuronEval j] else [])"
proof (induction n arbitrary: k)
  case 0
  then show ?case by (simp add: neuron_events_def)
next
  case (Suc n)
  show ?case by (auto simp: neuron_events_Suc Suc)
qed

lemma count_eval_synapse_events:
  "filter (\<lambda>e. e = NeuronEval j) (synapse_events rg k ss) = []"
  by (induction rg k ss rule: synapse_events.induct) simp_all

lemma filter_eval_through_model_events:
  "filter (\<lambda>e. e = NeuronEval j) (filter is_model_event xs) = filter (\<lambda>e. e = NeuronEval j) xs"
  by (induction xs) auto

lemma run_step_first:
  assumes f: "first_step s" and r: "run_step sem s = Inr s'"
  shows "filter is_model_event (trace s') = filter is_model_event (trace s)"
    and "buffer s' = buffer s" and "model_mem s' = model_mem s"
    and "neurons s' = neurons s" and "synapses s' = synapses s" and "\<not> first_step s'"
    and "case ports_in_gpot_mem_ind s of
           None \<Rightarrow> V s' = V s
         | Some k \<Rightarrow> gather_into (pm_gpot_data s) (V s) (inds_gpot s)
                       (read_at (idx_start_gpot s) k) = Inr (V s')"
    and "case ports_in_spk_mem_ind s of
           None \<Rightarrow> spike_state s' = spike_state s
         | Some k \<Rightarrow> gather_into (pm_spike_data s) (spike_state s) (inds_spike s)
                       (read_at (idx_start_spike s) k) = Inr (spike_state s')"
proof -
  from r obtain s1 s2 s3 where
    a: "read_LPU_input s = Inr s1"
    and b: "evaluate_models sem (if input_file s1 \<noteq> None then read_external_input s1 else s1)
        = Inr s2"
    and c: "extract_output (debug_append s2) = Inr s3"
    and d: "if lpu_output s3 then write_output s3 = Inr s' else s' = s3"
    by (rule run_step_Inr)
  let ?m = "if input_file s1 \<noteq> None then read_external_input s1 else s1"
  note h = run_step_head_view [OF a]
  have fm: "first_step ?m" using h(1) f by (simp add: host_view_def)
  from b evaluate_models_first [OF fm] have s2: "s2 = ?m\<lparr> first_step := False \<rparr>" by simp
  have v2: "host_view s2 = (False, neurons s, synapses s, buffer s, model_mem s, reg s,
      filter is_model_event (trace s))" "V s2 = V s1" "spike_state s2 = spike_state s1"
    using h unfolding s2 by (simp_all add: host_view_def)
  note t = run_step_tail_view [OF c d]
  from t v2 show "filter is_model_event (trace s') = filter is_model_event (trace s)"
    and "buffer s' = buffer s" and "model_mem s' = model_mem s"
    and "neurons s' = neurons s" and "synapses s' = synapses s" and "\<not> first_step s'"
    by (simp_all add: host_view_def)
  from t v2 have vs: "V s' = V s1" "spike_state s' = spike_state s1" by simp_all
  from read_LPU_input_arrays [OF a]
  show "case ports_in_gpot_mem_ind s of
           None \<Rightarrow> V s' = V s
         | Some k \<Rightarrow> gather_into (pm_gpot_data s) (V s) (inds_gpot s)
                       (read_at (idx_start_gpot s) k) = Inr (V s')"
    and "case ports_in_spk_mem_ind s of
           None \<Rightarrow> spike_state s' = spike_state s
         | Some k \<Rightarrow> gather_into (pm_spike_data s) (spike_state s) (inds_spike s)
                       (read_at (idx_start_spike s) k) = Inr (spike_state s')"
    unfolding vs by simp_all
qed

lemma run_step_later:
  assumes f: "\<not> first_step s" and r: "run_step sem s = Inr s'"
  shows "None \<notin> set (neurons s) \<and> None \<notin> set (synapses s) \<and>
         filter is_model_event (trace s')
           = filter is_model_event (trace s) @ neuron_events 0 (length (neurons s))
               @ [UpdateBuffer] @ synapse_events (reg s) 0 (synapses s) @ [BufferStep] \<and>
         \<not> first_step s' \<and> neurons s' = neurons s \<and> synapses s' = synapses s \<and>
         same_cursors (buffer s') (step (buffer s))"
proof -
  from r obtain s1 s2 s3 where
    a: "read_LPU_input s = Inr s1"
    and b: "evaluate_models sem (if input_file s1 \<noteq> None then read_external_input s1 else s1)
        = Inr s2"
    and c: "extract_output (debug_append s2) = Inr s3"
    and d: "if lpu_output s3 then write_output s3 = Inr s' else s' = s3"
    by (rule run_step_Inr)
  let ?m = "if input_file s1 \<noteq> None then read_external_input s1 else s1"
  have h: "host_view ?m = host_view s" by (rule run_step_head_view(1) [OF a])
  then have hm: "first_step ?m = first_step s" "neurons ?m = neurons s"
    "synapses ?m = synapses s" "buffer ?m = buffer s" "reg ?m = reg s"
    "filter is_model_event (trace ?m) = filter is_model_event (trace s)"
    by (simp_all add: host_view_def)
  have fm: "\<not> first_step ?m" using hm f by simp
  note e = evaluate_models_later [OF fm b]
  have t: "host_view s' = host_view s2" using run_step_tail_view [OF c d] by simp
  then have ts: "first_step s' = first_step s2" "neurons s' = neurons s2"
    "synapses s' = synapses s2" "buffer s' = buffer s2"
    "filter is_model_event (trace s') = filter is_model_event (trace s2)"
    by (simp_all add: host_view_def)
  have "filter is_model_event (trace s2)
      = filter is_model_event (trace ?m) @ neuron_events 0 (length (neurons ?m))
               @ [UpdateBuffer] @ synapse_events (reg ?m) 0 (synapses ?m) @ [BufferStep]"
    using e by simp
  with e show ?thesis unfolding ts hm by simp
qed









text \<open>The columns \<open>graph_to_dicts\<close> builds have their neuron targets first.\<close>

lemma set_insort_cmp: "set (insort_cmp c x ys) = insert x (set ys)"
  by (induction ys) auto

lemma synapse_cmp_le:
  "synapse_cmp x y \<le> 0 \<Longrightarrow> is_synapse_post (e_post x) \<Longrightarrow> is_synapse_post (e_post y)"
  by (cases "is_synapse_post (e_post y)") (simp_all add: synapse_cmp_def Let_def)

lemma synapse_cmp_gt:
  "\<not> synapse_cmp x y \<le> 0 \<Longrightarrow> is_synapse_post (e_post y) \<Longrightarrow> is_synapse_post (e_post x)"
  by (cases "is_synapse_post (e_post x)") (simp_all add: synapse_cmp_def Let_def)

lemma insort_cmp_neuron_first:
  assumes "sorted_wrt (\<lambda>x y. is_synapse_post (e_post x) \<longrightarrow> is_synapse_post (e_post y)) ys"
  shows "sorted_wrt (\<lambda>x y. is_synapse_post (e_post x) \<longrightarrow> is_synapse_post (e_post y))
           (insort_cmp synapse_cmp x ys)"
  using assms
proof (induction ys)
  case Nil
  show ?case by (simp only: insort_cmp.simps sorted_wrt1)
next
  case (Cons y ys)
  from Cons.prems have both:
    "(\<forall>z\<in>set ys. is_synapse_post (e_post y) \<longrightarrow> is_synapse_post (e_post z)) \<and>
     sorted_wrt (\<lambda>x y. is_synapse_post (e_post x) \<longrightarrow> is_synapse_post (e_post y)) ys"
    by (rule iffD1 [OF sorted_wrt.simps(2)])
  then have rest: "sorted_wrt (\<lambda>x y. is_synapse_post (e_post x) \<longrightarrow> is_synapse_post (e_post y)) ys"
    and below: "\<forall>z\<in>set ys. is_synapse_post (e_post y) \<longrightarrow> is_synapse_post (e_post z)"
    by blast+
  show ?case
  proof (cases "synapse_cmp x y \<le> 0")
    case True
    have a: "\<forall>z\<in>set (y # ys). is_synapse_post (e_post x) \<longrightarrow> is_synapse_post (e_post z)"
    proof (intro ballI impI)
      fix z assume z: "z \<in> set (y # ys)" and sx: "is_synapse_post (e_post x)"
      from True sx have sy: "is_synapse_post (e_post y)" by (rule synapse_cmp_le)
      from z have "z = y \<or> z \<in> set ys" by (simp only: set_simps insert_iff)
      with sy below show "is_synapse_post (e_post z)" by blast
    qed
    have "sorted_wrt (\<lambda>x y. is_synapse_post (e_post x) \<longrightarrow> is_synapse_post (e_post y))
        (x # y # ys)"
      by (rule iffD2 [OF sorted_wrt.simps(2)], rule conjI [OF a Cons.prems])
    moreover have "insort_cmp synapse_cmp x (y # ys) = x # y # ys"
      using True by (simp only: insort_cmp.simps if_True)
    ultimately show ?thesis by (simp only:)
  next
    case False
    have b: "\<forall>z\<in>set (insort_cmp synapse_cmp x ys).
            is_synapse_post (e_post y) \<longrightarrow> is_synapse_post (e_post z)"
    proof (intro ballI impI)
      fix z assume z: "z \<in> set (insort_cmp synapse_cmp x ys)"
        and sy: "is_synapse_post (e_post y)"
      from z have "z = x \<or> z \<in> set ys" by (simp only: set_insort_cmp insert_iff)
      moreover from False sy have "is_synapse_post (e_post x)" by (rule synapse_cmp_gt)
      ultimately show "is_synapse_post (e_post z)" using below sy by blast
    qed
    have "sorted_wrt (\<lambda>x y. is_synapse_post (e_post x) \<longrightarrow> is_synapse_post (e_post y))
        (y # insort_cmp synapse_cmp x ys)"
      by (rule iffD2 [OF sorted_wrt.simps(2)], rule conjI [OF b Cons.IH [OF rest]])
    moreover have "insort_cmp synapse_cmp x (y # ys) = y # insort_cmp synapse_cmp x ys"
      using False by (simp only: insort_cmp.simps if_False)
    ultimately show ?thesis by (simp only:)
  qed
qed

lemma sort_cmp_neuron_first:
  "sorted_wrt (\<lambda>x y. is_synapse_post (e_post x) \<longrightarrow> is_synapse_post (e_post y))
     (sort_cmp synapse_cmp es)"
  unfolding sort_cmp_def
proof (induction es)
  case Nil
  show ?case by simp
next
  case (Cons e es)
  have "foldr (insort_cmp synapse_cmp) (e # es) []
      = insort_cmp synapse_cmp e (foldr (insort_cmp synapse_cmp) es [])"
    by simp
  then show ?case using insort_cmp_neuron_first [OF Cons.IH] by (simp only:)
qed

lemma sorted_neuron_first:
  "sorted_wrt (\<lambda>p q. is_synapse_post p \<longrightarrow> is_synapse_post q) ps \<Longrightarrow> neuron_first ps"
proof (induction ps)
  case Nil
  show ?case by (simp add: neuron_first_def)
next
  case (Cons p ps)
  from Cons.prems have both:
    "(\<forall>q\<in>set ps. is_synapse_post p \<longrightarrow> is_synapse_post q) \<and>
     sorted_wrt (\<lambda>p q. is_synapse_post p \<longrightarrow> is_synapse_post q) ps"
    by (rule iffD1 [OF sorted_wrt.simps(2)])
  then have rest: "sorted_wrt (\<lambda>p q. is_synapse_post p \<longrightarrow> is_synapse_post q) ps"
    and below: "\<forall>q\<in>set ps. is_synapse_post p \<longrightarrow> is_synapse_post q"
    by blast+
  from Cons.IH [OF rest]
  have ih: "ps = filter (\<lambda>p. \<not> is_synapse_post p) ps @ filter is_synapse_post ps"
    unfolding neuron_first_def .
  show ?case
  proof (cases "is_synapse_post p")
    case True
    with below have all: "\<forall>q\<in>set ps. is_synapse_post q" by blast
    then have "filter (\<lambda>p. \<not> is_synapse_post p) ps = []" "filter is_synapse_post ps = ps"
      by (simp_all add: filter_empty_conv filter_id_conv)
    with True show ?thesis by (simp add: neuron_first_def)
  next
    case False
    have "p # ps = p # filter (\<lambda>p. \<not> is_synapse_post p) ps @ filter is_synapse_post ps"
      using ih by (rule arg_cong)
    with False show ?thesis by (simp add: neuron_first_def)
  qed
qed

lemma graph_posts_neuron_first: "neuron_first (graph_posts m es)"
proof -
  have "sorted_wrt (\<lambda>x y. is_synapse_post (e_post x) \<longrightarrow> is_synapse_post (e_post y))
     (filter (\<lambda>e. e_model e = m) (sort_cmp synapse_cmp es))"
    by (rule sorted_wrt_filter [OF sort_cmp_neuron_first])
  then have "sorted_wrt (\<lambda>p q. is_synapse_post p \<longrightarrow> is_synapse_post q) (graph_posts m es)"
    by (simp only: graph_posts_def sorted_wrt_map)
  then show ?thesis by (rule sorted_neuron_first)
qed




end
